theory Spec2Isabelle
  imports Complex_Main "HOL-Library.Sublist"
begin

section \<open>The Go library functions the program calls\<close>

text \<open>
  A Go string is a sequence of bytes, here a \<open>string\<close> (a list of 8-bit \<open>char\<close>s).
  A \<open>float64\<close> is modelled by a \<open>real\<close>: rounding is not modelled and the non-finite
  values (infinities, NaN) are outside the model.

  The functions of this section belong to Go's standard library and to the package
  \<^verbatim>\<open>github.com/westphae/quaternion\<close>; the repository only calls them. The string functions
  are modelled as their documentation describes them. The two numeric ones,
  \<^verbatim>\<open>strconv.ParseFloat\<close> and \<^verbatim>\<open>quaternion.FromEuler\<close>, are parameters \<open>pf\<close> and \<open>fe\<close> of the
  parser below, so that every general theorem holds whatever they compute; the models
  \<open>ParseFloat\<close> and \<open>FromEuler\<close> given here are used where a concrete frame is evaluated.
\<close>

text \<open>\<^verbatim>\<open>strings.Contains(s, substr)\<close>: \<open>substr\<close> occurs somewhere in \<open>s\<close>.\<close>

fun Contains :: "string \<Rightarrow> string \<Rightarrow> bool" where
  "Contains [] substr = (substr = [])"
| "Contains (c # s) substr = (prefix substr (c # s) \<or> Contains s substr)"

text \<open>
  \<^verbatim>\<open>strings.Split(s, sep)\<close> for a separator that is not empty (the program's separators are
  \<^verbatim>\<open>"|"\<close>, \<^verbatim>\<open>"&"\<close>, \<^verbatim>\<open>"#"\<close> and \<^verbatim>\<open>","\<close>): the pieces of \<open>s\<close> between the occurrences of \<open>sep\<close>, found
  from the left; one more piece than there are occurrences, so never an empty list.
\<close>

fun Split :: "string \<Rightarrow> string \<Rightarrow> string list" where
  "Split [] sep = [[]]"
| "Split (c # s) sep =
     (if sep \<noteq> [] \<and> prefix sep (c # s) then [] # Split (drop (length sep) (c # s)) sep
      else (case Split s sep of [] \<Rightarrow> [[c]] | p # ps \<Rightarrow> (c # p) # ps))"

text \<open>
  \<^verbatim>\<open>strings.ReplaceAll(s, old, "")\<close>: every occurrence of \<open>old\<close>, found from the left and not
  overlapping an earlier one, is deleted. The program's replacement is the empty string
  at each of its three calls. An empty \<open>old\<close> leaves \<open>s\<close> as it is.
\<close>

fun ReplaceAll :: "string \<Rightarrow> string \<Rightarrow> string" where
  "ReplaceAll [] old = []"
| "ReplaceAll (c # s) old =
     (if old \<noteq> [] \<and> prefix old (c # s) then ReplaceAll (drop (length old) (c # s)) old
      else c # ReplaceAll s old)"

text \<open>
  \<^verbatim>\<open>strings.ToUpper\<close> applied to the one-byte string \<^verbatim>\<open>key[0:1]\<close>: an ASCII lower-case letter
  becomes the upper-case letter, any other ASCII byte stays, and a byte from \<open>0x80\<close> on,
  which alone is not valid UTF-8, comes back as the three bytes of U+FFFD.
\<close>

definition ToUpper_byte :: "char \<Rightarrow> string" where
  "ToUpper_byte c =
     (let n = (of_char c :: nat) in
      if 97 \<le> n \<and> n \<le> 122 then [char_of (n - 32)]
      else if n < 128 then [c]
      else [CHR 0xEF, CHR 0xBF, CHR 0xBD])"

text \<open>
  \<^verbatim>\<open>strconv.ParseFloat(s, 64)\<close>; \<open>None\<close> is the library's error. The library reads an
  optional sign, then a decimal mantissa (digits with at most one point, at least one
  digit) with an optional exponent \<^verbatim>\<open>e\<close>, or, after \<^verbatim>\<open>0x\<close>, a hexadecimal mantissa with the
  exponent \<^verbatim>\<open>p\<close> it then requires; the exponent is a power of ten or of two, written as an
  optional sign and decimal digits that start with a digit (its value stops growing at
  10000). Underscores may stand between digits, or between \<^verbatim>\<open>0x\<close> and a digit
  (\<^verbatim>\<open>underscoreOK\<close>). The whole string must be read. A value that rounds to an infinity,
  which is one of at least \<open>2 ^ 1024 - 2 ^ 970\<close>, is the range error.
  The value is the exact one: the rounding to a \<^verbatim>\<open>float64\<close> is not modelled. The library
  also reads \<^verbatim>\<open>Inf\<close>, \<^verbatim>\<open>Infinity\<close> and \<^verbatim>\<open>NaN\<close> (\<^verbatim>\<open>special\<close>) and returns values that are no real
  numbers; for these strings alone the model cannot follow it, and it answers \<open>None\<close>.
\<close>

definition toLower :: "char \<Rightarrow> char" where
  "toLower c = (if 65 \<le> (of_char c :: nat) \<and> (of_char c :: nat) \<le> 90
                then char_of ((of_char c :: nat) + 32) else c)"

definition digitOf :: "bool \<Rightarrow> char \<Rightarrow> nat option" where
  "digitOf hex c =
     (if 48 \<le> (of_char c :: nat) \<and> (of_char c :: nat) \<le> 57 then Some (of_char c - 48)
      else if hex \<and> 97 \<le> (of_char (toLower c) :: nat) \<and> (of_char (toLower c) :: nat) \<le> 102
      then Some (of_char (toLower c) - 87)
      else None)"

definition mantissaChar :: "bool \<Rightarrow> char \<Rightarrow> bool" where
  "mantissaChar hex c = (c = CHR ''_'' \<or> digitOf hex c \<noteq> None)"

definition digitsVal :: "nat \<Rightarrow> bool \<Rightarrow> string \<Rightarrow> nat" where
  "digitsVal base hex ds =
     foldl (\<lambda>a c. case digitOf hex c of None \<Rightarrow> a | Some d \<Rightarrow> base * a + d) 0 ds"

definition digitCount :: "bool \<Rightarrow> string \<Rightarrow> nat" where
  "digitCount hex ds = length (filter (\<lambda>c. digitOf hex c \<noteq> None) ds)"

definition exponentVal :: "string \<Rightarrow> nat" where
  "exponentVal ds =
     foldl (\<lambda>e c. case digitOf False c of None \<Rightarrow> e
                    | Some d \<Rightarrow> if e < 10000 then 10 * e + d else e) 0 ds"

definition dropSign :: "string \<Rightarrow> string" where
  "dropSign s =
     (case s of [] \<Rightarrow> [] | c # r \<Rightarrow> if c = CHR ''+'' \<or> c = CHR ''-'' then r else s)"

definition hasPrefix0x :: "string \<Rightarrow> bool" where
  "hasPrefix0x t =
     (case t of a # b # _ \<Rightarrow> a = CHR ''0'' \<and> toLower b = CHR ''x'' | _ \<Rightarrow> False)"

text \<open>
  \<^verbatim>\<open>underscoreOK\<close>: \<open>saw\<close> is the kind of the last character, \<^verbatim>\<open>0\<close> for a digit or a base
  prefix, \<^verbatim>\<open>_\<close> for an underscore, another character for anything else.
\<close>

fun underscoreOK_from :: "bool \<Rightarrow> char \<Rightarrow> string \<Rightarrow> bool" where
  "underscoreOK_from hex saw [] = (saw \<noteq> CHR ''_'')"
| "underscoreOK_from hex saw (c # s) =
     (if digitOf hex c \<noteq> None then underscoreOK_from hex (CHR ''0'') s
      else if c = CHR ''_'' then saw = CHR ''0'' \<and> underscoreOK_from hex (CHR ''_'') s
      else saw \<noteq> CHR ''_'' \<and> underscoreOK_from hex (CHR ''!'') s)"

definition underscoreOK :: "string \<Rightarrow> bool" where
  "underscoreOK s =
     (if (case dropSign s of a # b # _ \<Rightarrow>
            a = CHR ''0'' \<and> toLower b \<in> {CHR ''b'', CHR ''o'', CHR ''x''}
          | _ \<Rightarrow> False)
      then underscoreOK_from (hasPrefix0x (dropSign s)) (CHR ''0'') (drop 2 (dropSign s))
      else underscoreOK_from False (CHR ''^'') (dropSign s))"

text \<open>\<^verbatim>\<open>special\<close>: the strings the library reads as an infinity or as NaN.\<close>

definition special :: "string \<Rightarrow> bool" where
  "special s =
     (map toLower (dropSign s) \<in> {''inf'', ''infinity''} \<or> map toLower s = ''nan'')"

text \<open>
  \<^verbatim>\<open>readFloat\<close> in the order of the source, from the end: the range check on the magnitude
  \<open>x\<close>; the exponent behind the mantissa \<open>m\<close>, or the end of the string; the point and
  the digits behind it; the digits before it; the sign and the prefix \<^verbatim>\<open>0x\<close>.
\<close>

definition rangeChecked :: "bool \<Rightarrow> real \<Rightarrow> real option" where
  "rangeChecked neg x = (if 2 ^ 1024 - 2 ^ 970 \<le> x then None else Some (if neg then - x else x))"

definition readExponent :: "bool \<Rightarrow> bool \<Rightarrow> real \<Rightarrow> string \<Rightarrow> real option" where
  "readExponent neg hex m w =
     (case w of
        [] \<Rightarrow> if hex then None else rangeChecked neg m
      | c # r \<Rightarrow>
          if toLower c \<noteq> (if hex then CHR ''p'' else CHR ''e'') then None
          else (case dropSign r of
                  [] \<Rightarrow> None
                | d # ds \<Rightarrow>
                    if digitOf False d = None \<or> \<not> list_all (mantissaChar False) ds then None
                    else if (case r of x # _ \<Rightarrow> x = CHR ''-'' | [] \<Rightarrow> False)
                    then rangeChecked neg (m / (if hex then 2 else 10) ^ exponentVal (d # ds))
                    else rangeChecked neg (m * (if hex then 2 else 10) ^ exponentVal (d # ds))))"

definition readFraction :: "bool \<Rightarrow> bool \<Rightarrow> string \<Rightarrow> string \<Rightarrow> real option" where
  "readFraction neg hex ip v =
     (case v of
        [] \<Rightarrow> if digitCount hex ip = 0 then None
              else readExponent neg hex (real (digitsVal (if hex then 16 else 10) hex ip)) []
      | c # r \<Rightarrow>
          if c = CHR ''.'' then
            (if digitCount hex (ip @ takeWhile (mantissaChar hex) r) = 0 then None
             else readExponent neg hex
                    (real (digitsVal (if hex then 16 else 10) hex (ip @ takeWhile (mantissaChar hex) r))
                       / (if hex then 16 else 10) ^ digitCount hex (takeWhile (mantissaChar hex) r))
                    (dropWhile (mantissaChar hex) r))
          else if digitCount hex ip = 0 then None
          else readExponent neg hex (real (digitsVal (if hex then 16 else 10) hex ip)) v)"

definition readMantissa :: "bool \<Rightarrow> bool \<Rightarrow> string \<Rightarrow> real option" where
  "readMantissa neg hex u =
     readFraction neg hex (takeWhile (mantissaChar hex) u) (dropWhile (mantissaChar hex) u)"

definition readFloat :: "string \<Rightarrow> real option" where
  "readFloat s =
     (if 2 < length (dropSign s) \<and> hasPrefix0x (dropSign s)
      then readMantissa (take 1 s = ''-'') True (drop 2 (dropSign s))
      else readMantissa (take 1 s = ''-'') False (dropSign s))"

definition ParseFloat :: "string \<Rightarrow> real option" where
  "ParseFloat s =
     (if special s then None
      else if CHR ''_'' \<in> set s \<and> \<not> underscoreOK s then None
      else readFloat s)"

text \<open>The library's \<^verbatim>\<open>quaternion.Quaternion\<close> and \<^verbatim>\<open>quaternion.FromEuler(phi, theta, psi)\<close>.\<close>

record Quaternion =
  W :: real
  X :: real
  Y :: real
  Z :: real

definition FromEuler :: "real \<Rightarrow> real \<Rightarrow> real \<Rightarrow> Quaternion" where
  "FromEuler phi theta psi =
     \<lparr> W = cos (phi / 2) * cos (theta / 2) * cos (psi / 2)
           + sin (phi / 2) * sin (theta / 2) * sin (psi / 2),
       X = sin (phi / 2) * cos (theta / 2) * cos (psi / 2)
           - cos (phi / 2) * sin (theta / 2) * sin (psi / 2),
       Y = cos (phi / 2) * sin (theta / 2) * cos (psi / 2)
           + sin (phi / 2) * cos (theta / 2) * sin (psi / 2),
       Z = cos (phi / 2) * cos (theta / 2) * sin (psi / 2)
           - sin (phi / 2) * sin (theta / 2) * cos (psi / 2) \<rparr>"

section \<open>The Facemotion3D receiver: \<^verbatim>\<open>parseFrame\<close>\<close>

text \<open>
  The types of package \<^verbatim>\<open>obj\<close> as \<^verbatim>\<open>parseFrame\<close> builds them: a \<^verbatim>\<open>Bone\<close> holds a \<^verbatim>\<open>Rotation\<close>,
  which holds a \<^verbatim>\<open>QuaternionRotation\<close> with fields \<^verbatim>\<open>X\<close>, \<^verbatim>\<open>Y\<close>, \<^verbatim>\<open>Z\<close>, \<^verbatim>\<open>W\<close> (the constructor's
  arguments, in this order). A \<^verbatim>\<open>BlendShape\<close> is a \<^verbatim>\<open>float64\<close>.
\<close>

datatype QuaternionRotation = QuaternionRotation real real real real

datatype Rotation = Rotation QuaternionRotation

datatype Bone = Bone Rotation

text \<open>A run-time panic of Go. Nothing in the two files recovers from one.\<close>

datatype panic = SliceBoundsOutOfRange | IndexOutOfRange | NilPointerDereference

datatype error = NumError string | IOError string

text \<open>
  What the receiver does to the world, one constructor for each kind of call: \<^verbatim>\<open>log.Print\<close>
  of an error and of a text, the two write methods of \<^verbatim>\<open>fm3dReceiver.VRM\<close> (\<^verbatim>\<open>parseFrame\<close> makes
  only these three), and the network calls of \<^verbatim>\<open>sendThroughTCP\<close> and \<^verbatim>\<open>listenTCP\<close>: \<^verbatim>\<open>net.Listen\<close>
  and \<^verbatim>\<open>net.Dial\<close> with network and address, the closing of the listener and of the dialled
  connection, \<^verbatim>\<open>fmt.Fprintf\<close> of a message to the dialled connection, \<^verbatim>\<open>time.Sleep\<close> with
  its duration in milliseconds, \<^verbatim>\<open>listener.Accept\<close> and \<^verbatim>\<open>currentConn.Read\<close>.
  A run is the list of these effects in the order of the calls, and the panic that ended
  it, if one did. \<open>NumError v\<close> is the error \<^verbatim>\<open>strconv.ParseFloat\<close> returns for the string
  \<open>v\<close>; \<open>IOError\<close> is an error of the network, by its text.
\<close>

datatype effect =
    Log error
  | Print string
  | WriteBlendShape string real
  | WriteBone string Bone
  | Listen string string
  | CloseListener
  | Dial string string
  | Send string
  | CloseDial
  | Sleep nat
  | Accept
  | Read

type_synonym run = "effect list \<times> panic option"

definition and_then :: "effect list \<Rightarrow> run \<Rightarrow> run" where
  "and_then es r = (es @ fst r, snd r)"

text \<open>Lines 386 to 397: the values of a bone that parse, in order; the others are logged.\<close>

fun boneValues_loop :: "(string \<Rightarrow> real option) \<Rightarrow> string list \<Rightarrow> effect list \<times> real list" where
  "boneValues_loop pf [] = ([], [])"
| "boneValues_loop pf (v # vs) =
     (case pf v of
        None \<Rightarrow> (Log (NumError v) # fst (boneValues_loop pf vs), snd (boneValues_loop pf vs))
      | Some rawFloat \<Rightarrow> (fst (boneValues_loop pf vs), rawFloat # snd (boneValues_loop pf vs)))"

text \<open>Lines 415 to 424: the \<^verbatim>\<open>obj.Bone\<close> built from the library's quaternion, field by field.\<close>

definition boneOf :: "Quaternion \<Rightarrow> Bone" where
  "boneOf boneQuat =
     Bone (Rotation (QuaternionRotation (X boneQuat) (Y boneQuat) (Z boneQuat) (W boneQuat)))"

text \<open>
  Lines 375 to 428, the second \<^verbatim>\<open>if\<close> of the loop body. \<^verbatim>\<open>key[0:1]\<close> panics on an empty key,
  and \<^verbatim>\<open>boneValues[0]\<close>, \<^verbatim>\<open>[1]\<close>, \<^verbatim>\<open>[2]\<close> panic when fewer than three values parsed.
\<close>

definition boneField ::
  "(string \<Rightarrow> real option) \<Rightarrow> (real \<Rightarrow> real \<Rightarrow> real \<Rightarrow> Quaternion) \<Rightarrow> string \<Rightarrow> run" where
  "boneField pf fe payloadStr =
     (if Contains payloadStr ''#'' then
        (case Split payloadStr ''#'' of
           k # vals # _ \<Rightarrow>
             (case ReplaceAll k ''='' of
                [] \<Rightarrow> ([], Some SliceBoundsOutOfRange)
              | c # cs \<Rightarrow>
                  (let key = ToUpper_byte c @ cs;
                       logs = fst (boneValues_loop pf (Split vals '',''));
                       boneValues = snd (boneValues_loop pf (Split vals '',''));
                       divisor = (if key = ''Head'' then 32 else 128)
                   in case boneValues of
                        v0 # v1 # v2 # _ \<Rightarrow>
                          (let boneQuat = fe (v0 / divisor) (v1 / divisor) (- (v2 / divisor))
                           in (logs @ [WriteBone key (boneOf boneQuat)], None))
                      | _ \<Rightarrow> (logs, Some IndexOutOfRange)))
         | _ \<Rightarrow> ([], Some IndexOutOfRange))
      else ([], None))"

text \<open>
  Lines 337 to 428, the body of the loop for one \<^verbatim>\<open>payloadStr\<close>. Each \<^verbatim>\<open>continue\<close> of the
  blend-shape branch ends the body, so the bone branch is not reached after it.
\<close>

definition parseField ::
  "(string \<Rightarrow> real option) \<Rightarrow> (real \<Rightarrow> real \<Rightarrow> real \<Rightarrow> Quaternion) \<Rightarrow> string \<Rightarrow> run" where
  "parseField pf fe payloadStr =
     (if Contains payloadStr ''&'' then
        (if Contains payloadStr ''FM_'' then ([], None)
         else if payloadStr = [] then ([], None)
         else (case Split payloadStr ''&'' of
                 k # val # _ \<Rightarrow>
                   (case k of
                      [] \<Rightarrow> ([], Some SliceBoundsOutOfRange)
                    | c # cs \<Rightarrow>
                        (let key = ToUpper_byte c @ cs
                         in case pf val of
                              None \<Rightarrow> ([], None)
                            | Some v \<Rightarrow>
                                (let blendShape = v / 100
                                 in and_then [WriteBlendShape key blendShape]
                                      (boneField pf fe payloadStr))))
               | _ \<Rightarrow> ([], Some IndexOutOfRange)))
      else boneField pf fe payloadStr)"

text \<open>Lines 335 to 430: the loop over the fields; a panic ends it.\<close>

fun parsePayload ::
  "(string \<Rightarrow> real option) \<Rightarrow> (real \<Rightarrow> real \<Rightarrow> real \<Rightarrow> Quaternion) \<Rightarrow> string list \<Rightarrow> run" where
  "parsePayload pf fe [] = ([], None)"
| "parsePayload pf fe (payloadStr # payload) =
     (case snd (parseField pf fe payloadStr) of
        Some p \<Rightarrow> parseField pf fe payloadStr
      | None \<Rightarrow> and_then (fst (parseField pf fe payloadStr)) (parsePayload pf fe payload))"

definition parseFrame ::
  "(string \<Rightarrow> real option) \<Rightarrow> (real \<Rightarrow> real \<Rightarrow> real \<Rightarrow> Quaternion) \<Rightarrow> string \<Rightarrow> run" where
  "parseFrame pf fe frameStr = parsePayload pf fe (Split frameStr ''|'')"

text \<open>The names of the blend shapes and of the bones a run wrote, in the order of the calls.\<close>

fun blendShapeNames :: "effect list \<Rightarrow> string list" where
  "blendShapeNames [] = []"
| "blendShapeNames (WriteBlendShape key w # es) = key # blendShapeNames es"
| "blendShapeNames (e # es) = blendShapeNames es"

fun boneNames :: "effect list \<Rightarrow> string list" where
  "boneNames [] = []"
| "boneNames (WriteBone key b # es) = key # boneNames es"
| "boneNames (e # es) = boneNames es"

section \<open>The pose model the parser writes to\<close>

text \<open>
  Modelled from the spec: the pose model of package \<^verbatim>\<open>obj\<close> (the type \<^verbatim>\<open>VRM\<close> and its methods
  \<^verbatim>\<open>WriteBlendShape\<close> and \<^verbatim>\<open>WriteBone\<close>), whose source is not among the repository's files.
  The spec gives the model a map from bone names to rotations and a map from blend-shape
  names to weights; \<^verbatim>\<open>writeBlendShape\<close> clamps the weight to \<open>[0,1]\<close> and stores it,
  \<^verbatim>\<open>writeBone\<close> normalises the quaternion and replaces the stored rotation. The camera,
  which no receiver writes, is left out. The spec does not say what is stored for a
  quaternion of norm zero; here it is stored as it comes.
\<close>

record VRM =
  bones :: "string \<rightharpoonup> Bone"
  blendShapes :: "string \<rightharpoonup> real"

definition clamp01 :: "real \<Rightarrow> real" where
  "clamp01 w = max 0 (min 1 w)"

fun normalize :: "Bone \<Rightarrow> Bone" where
  "normalize (Bone (Rotation (QuaternionRotation x y z w))) =
     (let n = sqrt (x * x + y * y + z * z + w * w)
      in if n = 0 then Bone (Rotation (QuaternionRotation x y z w))
         else Bone (Rotation (QuaternionRotation (x / n) (y / n) (z / n) (w / n))))"

definition VRM_WriteBlendShape :: "string \<Rightarrow> real \<Rightarrow> VRM \<Rightarrow> VRM" where
  "VRM_WriteBlendShape key weight vrm =
     vrm\<lparr>blendShapes := (blendShapes vrm)(key \<mapsto> clamp01 weight)\<rparr>"

definition VRM_WriteBone :: "string \<Rightarrow> Bone \<Rightarrow> VRM \<Rightarrow> VRM" where
  "VRM_WriteBone key bone vrm = vrm\<lparr>bones := (bones vrm)(key \<mapsto> normalize bone)\<rparr>"

text \<open>The pose model after the effects of a run, in order.\<close>

fun perform :: "VRM \<Rightarrow> effect list \<Rightarrow> VRM" where
  "perform vrm [] = vrm"
| "perform vrm (WriteBlendShape key w # es) = perform (VRM_WriteBlendShape key w vrm) es"
| "perform vrm (WriteBone key b # es) = perform (VRM_WriteBone key b vrm) es"
| "perform vrm (e # es) = perform vrm es"

section \<open>The Facemotion3D receiver: frames, connection and listener\<close>

text \<open>
  Line 325, the regular expression \<^verbatim>\<open>(.*___FACEMOTION3D(.*?))___FACEMOTION3D\<close>, and
  \<^verbatim>\<open>FindStringSubmatch\<close> on it. Go's \<^verbatim>\<open>regexp\<close> returns the leftmost match and, among the
  matches that start there, the one a backtracking search finds first; \<^verbatim>\<open>.\<close> matches every
  character but the newline. So \<open>lazyPayload\<close> is \<^verbatim>\<open>(.*?)___FACEMOTION3D\<close>, the shortest
  payload first; \<open>matchHere\<close> is the whole expression at the start of the string, the
  longest \<^verbatim>\<open>.*\<close> first; \<open>FindStringSubmatch\<close> tries the start positions from the left. The
  result is the slice Go returns: empty without a match, else the match and its two groups.
\<close>

definition sentinel :: string where
  "sentinel = ''___FACEMOTION3D''"

fun lazyPayload :: "string \<Rightarrow> (string \<times> string) option" where
  "lazyPayload [] = None"
| "lazyPayload (c # s) =
     (if prefix sentinel (c # s) then Some ([], drop (length sentinel) (c # s))
      else if c = CHR 0x0A then None
      else (case lazyPayload s of None \<Rightarrow> None | Some (p, r) \<Rightarrow> Some (c # p, r)))"

definition matchSentinel :: "string \<Rightarrow> (string \<times> string \<times> string) option" where
  "matchSentinel s =
     (if prefix sentinel s then
        (case lazyPayload (drop (length sentinel) s) of
           None \<Rightarrow> None
         | Some (p, r) \<Rightarrow> Some (sentinel @ p, p, r))
      else None)"

fun matchHere :: "string \<Rightarrow> (string \<times> string \<times> string) option" where
  "matchHere [] = None"
| "matchHere (c # s) =
     (case (if c = CHR 0x0A then None else matchHere s) of
        Some (g1, g2, r) \<Rightarrow> Some (c # g1, g2, r)
      | None \<Rightarrow> matchSentinel (c # s))"

fun FindStringSubmatch :: "string \<Rightarrow> string list" where
  "FindStringSubmatch [] = []"
| "FindStringSubmatch (c # s) =
     (case matchHere (c # s) of
        Some (g1, g2, r) \<Rightarrow> [g1 @ sentinel, g1, g2]
      | None \<Rightarrow> FindStringSubmatch s)"

text \<open>
  Lines 320 to 324, the variables of the package: the flag, and the current connection,
  a \<^verbatim>\<open>net.Conn\<close> interface value that is \<^verbatim>\<open>nil\<close> (\<open>None\<close>) until a connection is accepted.
  A connection is a number; \<open>closed\<close> holds the connections \<^verbatim>\<open>Close\<close> was called on.
\<close>

record fm3d =
  serverEnabled :: bool
  currentConn :: "nat option"
  closed :: "nat set"

definition fm3d_init :: fm3d where
  "fm3d_init = \<lparr> serverEnabled = True, currentConn = None, closed = {} \<rparr>"

text \<open>
  Lines 522 to 525. A method call on a \<^verbatim>\<open>nil\<close> interface value panics; the panic comes
  with the state it leaves, in which the flag is already cleared. The error that
  \<^verbatim>\<open>Close\<close> returns on a connection already closed is dropped by the source.
\<close>

definition stopListening :: "fm3d \<Rightarrow> (panic \<times> fm3d) + fm3d" where
  "stopListening st =
     (case currentConn (st\<lparr>serverEnabled := False\<rparr>) of
        None \<Rightarrow> Inl (NilPointerDereference, st\<lparr>serverEnabled := False\<rparr>)
      | Some conn \<Rightarrow> Inr (st\<lparr>serverEnabled := False, closed := insert conn (closed st)\<rparr>))"

text \<open>
  The answers of the network to one run of \<^verbatim>\<open>sendThroughTCP\<close>: the error, if any, of
  \<^verbatim>\<open>net.Dial\<close> and of the two \<^verbatim>\<open>fmt.Fprintf\<close>.
\<close>

record handshake =
  dial :: "error option"
  stop_msg :: "error option"
  start_msg :: "error option"

text \<open>Lines 435 to 454. The deferred \<^verbatim>\<open>conn.Close()\<close> runs at each return after the dial.\<close>

definition sendThroughTCP :: "string \<Rightarrow> handshake \<Rightarrow> effect list \<times> error option" where
  "sendThroughTCP address h =
     (case dial h of
        Some err \<Rightarrow> ([Dial ''udp'' address], Some err)
      | None \<Rightarrow>
          (case stop_msg h of
             Some err \<Rightarrow>
               ([Dial ''udp'' address, Send ''StopStreaming_FACEMOTION3D'', CloseDial], Some err)
           | None \<Rightarrow>
               ([Dial ''udp'' address, Send ''StopStreaming_FACEMOTION3D'', Sleep 500,
                 Send ''FACEMOTION3D_OtherStreaming|protocol=tcp'', CloseDial], start_msg h)))"

text \<open>
  How a part of \<^verbatim>\<open>listenTCP\<close> ends: it is done, it panicked, or it waits for an answer the
  network has not given (the list of answers is used up).
\<close>

datatype outcome = Done | Panicked panic | Waiting

text \<open>
  Lines 487 to 513, the read loop, on the results of the successive \<^verbatim>\<open>Read\<close> calls: an
  error or the bytes read, which fill the start of the 8192 zero bytes of \<^verbatim>\<open>connBuf\<close>.
\<close>

definition connBuf :: "string \<Rightarrow> string" where
  "connBuf bytes = take 8192 bytes @ replicate (8192 - length bytes) (CHR 0x00)"

fun readLoop ::
  "(string \<Rightarrow> real option) \<Rightarrow> (real \<Rightarrow> real \<Rightarrow> real \<Rightarrow> Quaternion) \<Rightarrow> string \<Rightarrow>
     (error + string) list \<Rightarrow> effect list \<times> outcome" where
  "readLoop pf fe liveFrames [] = ([], Waiting)"
| "readLoop pf fe liveFrames (Inl err # rs) = ([Read], Done)"
| "readLoop pf fe liveFrames (Inr bytes # rs) =
     (case FindStringSubmatch (ReplaceAll (liveFrames @ connBuf bytes) [CHR 0x00]) of
        [m, allBeforeDelimiter, latestFrame] \<Rightarrow>
          (case snd (parseFrame pf fe latestFrame) of
             Some p \<Rightarrow> (Read # fst (parseFrame pf fe latestFrame), Panicked p)
           | None \<Rightarrow>
               (Read # fst (parseFrame pf fe latestFrame)
                  @ fst (readLoop pf fe
                      (ReplaceAll (ReplaceAll (liveFrames @ connBuf bytes) [CHR 0x00])
                         allBeforeDelimiter) rs),
                snd (readLoop pf fe
                      (ReplaceAll (ReplaceAll (liveFrames @ connBuf bytes) [CHR 0x00])
                         allBeforeDelimiter) rs)))
      | _ \<Rightarrow>
          (Read # fst (readLoop pf fe (ReplaceAll (liveFrames @ connBuf bytes) [CHR 0x00]) rs),
           snd (readLoop pf fe (ReplaceAll (liveFrames @ connBuf bytes) [CHR 0x00]) rs)))"

text \<open>
  The two strings of the configuration the listener uses, \<^verbatim>\<open>AppConfig.FM3DListen.String()\<close>
  and \<^verbatim>\<open>AppConfig.FM3DDevice.IP()\<close>; package \<^verbatim>\<open>config\<close> is outside the two files.
\<close>

record App =
  FM3DListen :: string
  FM3DDevice_IP :: string

text \<open>
  The answers of the network to one turn of the loop of \<^verbatim>\<open>listenTCP\<close>: those to the
  handshake, the result of \<^verbatim>\<open>Accept\<close>, the results of the \<^verbatim>\<open>Read\<close> calls; and whether
  another goroutine called \<^verbatim>\<open>stopListening\<close> during the turn, which the model places at
  the end of the turn.
\<close>

record round =
  handshake :: handshake
  accepted :: "error + nat"
  reads :: "(error + string) list"
  stopped :: bool

text \<open>Lines 468 to 516, the body of the loop.\<close>

definition telling :: "App \<Rightarrow> effect" where
  "telling cfg =
     Print (''Telling device at '' @ [CHR 0x22] @ FM3DDevice_IP cfg @ [CHR 0x22]
            @ '' to send motion Facemotion3D data through TCP'')"

definition iteration ::
  "(string \<Rightarrow> real option) \<Rightarrow> (real \<Rightarrow> real \<Rightarrow> real \<Rightarrow> Quaternion) \<Rightarrow> App \<Rightarrow> round \<Rightarrow> fm3d \<Rightarrow>
     effect list \<times> outcome \<times> fm3d" where
  "iteration pf fe cfg r st =
     (case sendThroughTCP (FM3DDevice_IP cfg @ '':49993'') (handshake r) of
        (hs, Some err) \<Rightarrow>
          (telling cfg # hs @ [Print ''Facemotion3D source error, waiting 3 seconds'', Sleep 3000],
           Done, st)
      | (hs, None) \<Rightarrow>
          (let st1 = (case accepted r of Inl err \<Rightarrow> st | Inr conn \<Rightarrow> st\<lparr>currentConn := Some conn\<rparr>);
               es = telling cfg # hs @ [Print ''Waiting for Facemotion3D client'', Accept]
                    @ (case accepted r of Inl err \<Rightarrow> [Log err] | Inr conn \<Rightarrow> [])
                    @ [Print ''Accepted new Facemotion3D client'']
           in case currentConn st1 of
                None \<Rightarrow> (es, Panicked NilPointerDereference, st1)
              | Some conn \<Rightarrow>
                  (case snd (readLoop pf fe [] (reads r)) of
                     Done \<Rightarrow>
                       (es @ fst (readLoop pf fe [] (reads r))
                           @ [Print ''Facemotion3D source disconnected, waiting 3 seconds'',
                              Sleep 3000],
                        Done, st1)
                   | out \<Rightarrow> (es @ fst (readLoop pf fe [] (reads r)), out, st1))))"

text \<open>Lines 466 to 518: the loop runs while the flag is set.\<close>

fun listenLoop ::
  "(string \<Rightarrow> real option) \<Rightarrow> (real \<Rightarrow> real \<Rightarrow> real \<Rightarrow> Quaternion) \<Rightarrow> App \<Rightarrow> round list \<Rightarrow> fm3d \<Rightarrow>
     effect list \<times> outcome \<times> fm3d" where
  "listenLoop pf fe cfg [] st = (if serverEnabled st then ([], Waiting, st) else ([], Done, st))"
| "listenLoop pf fe cfg (r # rs) st =
     (if \<not> serverEnabled st then ([], Done, st)
      else (case iteration pf fe cfg r st of
              (es, Done, st1) \<Rightarrow>
                (case (if stopped r then stopListening st1 else Inr st1) of
                   Inl (p, st2) \<Rightarrow> (es, Panicked p, st2)
                 | Inr st2 \<Rightarrow>
                     (case listenLoop pf fe cfg rs st2 of
                        (es2, out, st3) \<Rightarrow> (es @ es2, out, st3)))
            | (es, out, st1) \<Rightarrow> (es, out, st1)))"

text \<open>
  Lines 456 to 520. \<open>listen\<close> is the error of \<^verbatim>\<open>net.Listen\<close>, if any; the deferred
  \<^verbatim>\<open>listener.Close()\<close> runs when the function returns or panics.
\<close>

definition listenTCP ::
  "(string \<Rightarrow> real option) \<Rightarrow> (real \<Rightarrow> real \<Rightarrow> real \<Rightarrow> Quaternion) \<Rightarrow> App \<Rightarrow> error option \<Rightarrow>
     round list \<Rightarrow> fm3d \<Rightarrow> effect list \<times> outcome \<times> fm3d" where
  "listenTCP pf fe cfg listen rounds st =
     (case listen of
        Some err \<Rightarrow> ([Listen ''tcp'' (FM3DListen cfg), Log err], Done, st)
      | None \<Rightarrow>
          (case listenLoop pf fe cfg rounds st of
             (es, Waiting, st1) \<Rightarrow> (Listen ''tcp'' (FM3DListen cfg) # es, Waiting, st1)
           | (es, out, st1) \<Rightarrow> (Listen ''tcp'' (FM3DListen cfg) # es @ [CloseListener], out, st1)))"

text \<open>The effects that are calls to the network or waits, as against the log and the writes.\<close>

fun network :: "effect \<Rightarrow> bool" where
  "network (Log e) = False"
| "network (Print s) = False"
| "network (WriteBlendShape key w) = False"
| "network (WriteBone key b) = False"
| "network e = True"

section \<open>The router: the active receiver\<close>

text \<open>
  Lines 37 to 39 and 85 to 93. A \<^verbatim>\<open>*receivers.MotionReceiver\<close> is \<^verbatim>\<open>nil\<close> (\<open>None\<close>) or a
  receiver. The map \<^verbatim>\<open>receiverMap\<close> is a list of its entries in the order in which the
  \<^verbatim>\<open>range\<close> of \<^verbatim>\<open>New\<close> happens to visit them (Go leaves the order open), each key once.
  The state is the variable \<^verbatim>\<open>activeReceiver\<close>, the receivers whose \<^verbatim>\<open>Start\<close> was
  launched, and the lines printed to the log.
\<close>

record 'r router =
  activeReceiver :: "'r option"
  started :: "'r option list"
  logged :: "string list"

definition router_init :: "'r router" where
  "router_init = \<lparr> activeReceiver = None, started = [], logged = [] \<rparr>"

text \<open>\<^verbatim>\<open>receiverMap[name]\<close>: the value of the entry, or \<^verbatim>\<open>nil\<close> when there is none.\<close>

definition index :: "(string \<times> 'r option) list \<Rightarrow> string \<Rightarrow> 'r option" where
  "index receiverMap name = (case map_of receiverMap name of None \<Rightarrow> None | Some receiver \<Rightarrow> receiver)"

definition New :: "(string \<times> 'r option) list \<Rightarrow> 'r router \<Rightarrow> 'r router" where
  "New receiverMap st =
     (case receiverMap of
        [] \<Rightarrow> st
      | (name, receiver) # _ \<Rightarrow>
          st\<lparr> logged := logged st @ [''The active receiver is '' @ name],
              activeReceiver := receiver,
              started := started st @ [receiver] \<rparr>)"

text \<open>
  Lines 252 to 274, the handler of \<^verbatim>\<open>/api/receiver/change\<close>, on the result of reading the
  body of the request: the text of the error, or the bytes.
\<close>

definition receiverChange ::
  "(string \<times> 'r option) list \<Rightarrow> string + string \<Rightarrow> 'r router \<Rightarrow> 'r router" where
  "receiverChange receiverMap body st =
     (let st1 = st\<lparr>logged := logged st
                   @ [''Received request to change the MotionReceiver source for model'']\<rparr>
      in case body of
           Inl err \<Rightarrow> st1\<lparr>logged := logged st1 @ [err]\<rparr>
         | Inr suggestedReceiver \<Rightarrow>
             (if index receiverMap suggestedReceiver = None
              then st1\<lparr>logged := logged st1
                         @ [[CHR 0x22] @ suggestedReceiver @ [CHR 0x22] @ '' does not exist!'']\<rparr>
              else st1\<lparr>activeReceiver := index receiverMap suggestedReceiver,
                       logged := logged st1
                         @ [''Successfully changed the active receiver to '' @ suggestedReceiver]\<rparr>))"

text \<open>The requests to \<^verbatim>\<open>/api/receiver/change\<close> served one after the other.\<close>

fun serve :: "(string \<times> 'r option) list \<Rightarrow> (string + string) list \<Rightarrow> 'r router \<Rightarrow> 'r router" where
  "serve receiverMap [] st = st"
| "serve receiverMap (body # bodies) st = serve receiverMap bodies (receiverChange receiverMap body st)"

section \<open>Facts about the library functions\<close>

lemma Contains_single: "Contains s [c] \<longleftrightarrow> c \<in> set s"
  by (induction s) auto

lemma Split_no_sep: "c \<notin> set a \<Longrightarrow> Split a [c] = [a]"
  by (induction a) auto

lemma Split_at_sep: "c \<notin> set a \<Longrightarrow> Split (a @ c # b) [c] = a # Split b [c]"
  by (induction a) auto

lemma Split_not_Nil: "Split s sep \<noteq> []"
  by (induction s sep rule: Split.induct) (auto split: list.splits)

lemma ReplaceAll_single: "ReplaceAll s [c] = filter (\<lambda>x. x \<noteq> c) s"
  by (induction s) auto

lemma hd_Split_single: "hd (Split s [c]) = takeWhile (\<lambda>x. x \<noteq> c) s"
  by (induction s) (auto split: list.splits simp: Split_not_Nil)

lemmas ParseFloat_eval =
  ParseFloat_def special_def readFloat_def readMantissa_def readFraction_def readExponent_def
  rangeChecked_def dropSign_def hasPrefix0x_def mantissaChar_def digitOf_def
  digitsVal_def digitCount_def toLower_def

lemma ParseFloat_20: "ParseFloat ''20'' = Some 20"
  by (simp add: ParseFloat_eval)

lemma ParseFloat_50: "ParseFloat ''50'' = Some 50"
  by (simp add: ParseFloat_eval)

lemma ParseFloat_0: "ParseFloat ''0'' = Some 0"
  by (simp add: ParseFloat_eval)

lemma ParseFloat_1: "ParseFloat ''1'' = Some 1"
  by (simp add: ParseFloat_eval)

lemma ParseFloat_3: "ParseFloat ''3'' = Some 3"
  by (simp add: ParseFloat_eval)

lemma ParseFloat_4: "ParseFloat ''4'' = Some 4"
  by (simp add: ParseFloat_eval)

lemma ParseFloat_empty: "ParseFloat [] = None"
  by (simp add: ParseFloat_eval)


lemma FromEuler_0: "FromEuler 0 0 0 = \<lparr>W = 1, X = 0, Y = 0, Z = 0\<rparr>"
  by (simp add: FromEuler_def)

lemma ToUpper_byte_x: "ToUpper_byte CHR ''x'' = ''X''"
  by code_simp

lemma ToUpper_byte_j: "ToUpper_byte CHR ''j'' = ''J''"
  by code_simp

lemma ToUpper_byte_h: "ToUpper_byte CHR ''h'' = ''H''"
  by code_simp

lemma ToUpper_byte_H: "ToUpper_byte CHR ''H'' = ''H''"
  by code_simp

section \<open>The parser\<close>

lemma boneValues_loop_logs: "blendShapeNames (fst (boneValues_loop pf vs)) = []"
  by (induction vs) (auto split: option.splits)

lemma boneValues_loop_bones: "boneNames (fst (boneValues_loop pf vs)) = []"
  by (induction vs) (auto split: option.splits)

lemma blendShapeNames_append: "blendShapeNames (es @ fs) = blendShapeNames es @ blendShapeNames fs"
  by (induction es rule: blendShapeNames.induct) auto

lemma boneNames_append: "boneNames (es @ fs) = boneNames es @ boneNames fs"
  by (induction es rule: boneNames.induct) auto

lemma boneField_no_blendShape: "blendShapeNames (fst (boneField pf fe p)) = []"
  by (auto simp: boneField_def Let_def blendShapeNames_append boneValues_loop_logs split: list.splits)

lemma perform_no_blendShape:
  "blendShapeNames es = [] \<Longrightarrow> blendShapes (perform vrm es) = blendShapes vrm"
  by (induction vrm es rule: perform.induct) (auto simp: VRM_WriteBone_def)

text \<open>
  A blend-shape field \<open>name&val\<close> whose name is not empty, that does not hold the marker
  \<^verbatim>\<open>FM_\<close>, and whose value parses as a number \<open>v\<close> between 0 and 100: parsing the field
  writes exactly one blend shape, named by the name with its first byte through
  \<^verbatim>\<open>ToUpper\<close>, and the pose model then holds the weight \<open>v / 100\<close> under that name; the
  weight lies between 0 and 1, so the clamp of the write leaves it as it is.
\<close>

theorem blend_shape_weight:
  assumes "f = name @ ''&'' @ val" and "CHR ''&'' \<notin> set name" and "CHR ''&'' \<notin> set val"
    and "name \<noteq> []" and "\<not> Contains f ''FM_''"
    and "pf val = Some v" and "0 \<le> v" and "v \<le> 100"
  shows "blendShapes (perform vrm (fst (parseField pf fe f))) (ToUpper_byte (hd name) @ tl name)
           = Some (v / 100)
         \<and> 0 \<le> v / 100 \<and> v / 100 \<le> 1
         \<and> blendShapeNames (fst (parseField pf fe f)) = [ToUpper_byte (hd name) @ tl name]"
proof -
  obtain c cs where n: "name = c # cs" using assms(4) by (cases name) auto
  have sp: "Split f ''&'' = [name, val]"
    using assms(1,2,3) by (simp add: Split_at_sep Split_no_sep)
  have ct: "Contains f ''&''" using assms(1) by (simp add: Contains_single)
  have fne: "f \<noteq> []" using assms(1) by simp
  have pfld: "parseField pf fe f =
      and_then [WriteBlendShape (ToUpper_byte c @ cs) (v / 100)] (boneField pf fe f)"
    using ct fne assms(5,6) sp n by (simp add: parseField_def)
  have cl: "clamp01 (v / 100) = v / 100" using assms(7,8) by (simp add: clamp01_def)
  show ?thesis
    using assms(7,8) n cl
    by (simp add: pfld and_then_def perform_no_blendShape boneField_no_blendShape
        VRM_WriteBlendShape_def)
qed

theorem blend_shape_weight_witness:
  "blendShapes (perform \<lparr>bones = Map.empty, blendShapes = Map.empty\<rparr>
      (fst (parseField ParseFloat FromEuler ''jawOpen&50''))) ''JawOpen'' = Some (1 / 2)
   \<and> blendShapeNames (fst (parseField ParseFloat FromEuler ''jawOpen&50'')) = [''JawOpen'']"
  using blend_shape_weight [of "''jawOpen&50''" "''jawOpen''" "''50''" ParseFloat 50
      "\<lparr>bones = Map.empty, blendShapes = Map.empty\<rparr>" FromEuler]
  by (simp add: ParseFloat_50 ToUpper_byte_j)

lemma dead_guard: "Contains payloadStr ''&'' \<Longrightarrow> payloadStr \<noteq> []"
  by (cases payloadStr) auto

text \<open>
  C1. The claim promises a stored weight for every blend-shape field with a valid value.
  The frame \<^verbatim>\<open>&50\<close> is one blend-shape field with the valid value 50 and an empty name:
  \<^verbatim>\<open>parseFrame\<close> panics at \<^verbatim>\<open>key[0:1]\<close> (line 357) and writes nothing. The guard of lines
  345 to 348, under the comment \<^verbatim>\<open>Skip empty keys\<close>, tests the whole field, which is never
  empty once it holds an \<^verbatim>\<open>&\<close> (\<open>dead_guard\<close>); so the empty key it was written for is
  not skipped.
\<close>

theorem empty_name_panics:
  "parseFrame ParseFloat FromEuler ''&50'' = ([], Some SliceBoundsOutOfRange)"
  by (simp add: parseFrame_def parseField_def and_then_def)

text \<open>
  C6, as the code has it. Parsing the frame \<^verbatim>\<open>x=0&20|Head=#0,0,0,|\<close> writes the blend shape
  \<^verbatim>\<open>X=0\<close> (only a bone's name loses its \<^verbatim>\<open>=\<close>) with the weight 0.2, logs the error of the
  empty fourth value of the bone, and writes for the bone \<^verbatim>\<open>Head\<close> the identity rotation,
  \<open>x = y = z = 0\<close> and \<open>w = 1\<close>; it ends without a panic.
\<close>

theorem end_to_end_frame:
  "parseFrame ParseFloat FromEuler ''x=0&20|Head=#0,0,0,|'' =
     ([WriteBlendShape ''X=0'' (1 / 5), Log (NumError []),
       WriteBone ''Head'' (Bone (Rotation (QuaternionRotation 0 0 0 1)))], None)"
  by (simp add: parseFrame_def parseField_def boneField_def boneOf_def and_then_def
      ParseFloat_20 ParseFloat_0 ParseFloat_empty FromEuler_0 ToUpper_byte_x ToUpper_byte_H)

text \<open>C6 as the claim states it fails: no blend shape named \<^verbatim>\<open>X\<close> is written.\<close>

theorem end_to_end_frame_counterexample:
  "''X'' \<notin> set (blendShapeNames (fst (parseFrame ParseFloat FromEuler ''x=0&20|Head=#0,0,0,|'')))"
  by (simp add: parseFrame_def parseField_def boneField_def boneOf_def and_then_def
      ParseFloat_20 ParseFloat_0 ParseFloat_empty FromEuler_0 ToUpper_byte_x ToUpper_byte_H)

section \<open>The router\<close>

lemma index_in_map:
  assumes "index receiverMap name \<noteq> None"
  shows "index receiverMap name \<in> snd ` set receiverMap"
proof (cases "map_of receiverMap name")
  case None
  then show ?thesis using assms by (simp add: index_def)
next
  case (Some receiver)
  then have "(name, receiver) \<in> set receiverMap" by (rule map_of_SomeD)
  then have "snd (name, receiver) \<in> snd ` set receiverMap" by (rule imageI)
  then show ?thesis using Some by (simp add: index_def)
qed

lemma receiverChange_active:
  "activeReceiver (receiverChange receiverMap body st) = activeReceiver st
   \<or> activeReceiver (receiverChange receiverMap body st) \<in> snd ` set receiverMap"
proof (cases body)
  case (Inl err)
  then show ?thesis by (simp add: receiverChange_def)
next
  case (Inr suggestedReceiver)
  show ?thesis
  proof (cases "index receiverMap suggestedReceiver = None")
    case True
    then show ?thesis using Inr by (simp add: receiverChange_def)
  next
    case False
    then show ?thesis using Inr index_in_map [OF False] by (simp add: receiverChange_def Let_def)
  qed
qed

lemma serve_active:
  "activeReceiver st \<in> snd ` set receiverMap \<Longrightarrow>
   activeReceiver (serve receiverMap bodies st) \<in> snd ` set receiverMap"
proof (induction bodies arbitrary: st)
  case Nil
  then show ?case by simp
next
  case (Cons body bodies)
  have "activeReceiver (receiverChange receiverMap body st) \<in> snd ` set receiverMap"
    using receiverChange_active [of receiverMap body st] Cons.prems by metis
  then show ?case using Cons.IH by simp
qed

lemma New_active:
  "receiverMap \<noteq> [] \<Longrightarrow> activeReceiver (New receiverMap st) \<in> snd ` set receiverMap"
  by (cases receiverMap) (auto simp: New_def)

text \<open>
  C4. A request to \<^verbatim>\<open>/api/receiver/change\<close> whose body is a name that is not a key of the
  receiver map prints the line of its arrival and then the rejection
  \<^verbatim>\<open>"name" does not exist!\<close> to the log, and changes nothing else: the active receiver
  stays what it was.
\<close>

theorem unknown_receiver_rejected:
  assumes "name \<notin> fst ` set receiverMap"
  shows "receiverChange receiverMap (Inr name) st =
           st\<lparr>logged := logged st
                 @ [''Received request to change the MotionReceiver source for model'',
                    [CHR 0x22] @ name @ [CHR 0x22] @ '' does not exist!'']\<rparr>
         \<and> activeReceiver (receiverChange receiverMap (Inr name) st) = activeReceiver st"
proof -
  have "map_of receiverMap name = None"
    using assms by (simp add: map_of_eq_None_iff)
  then show ?thesis
    by (simp add: receiverChange_def index_def)
qed

theorem unknown_receiver_rejected_witness:
  "receiverChange [(''vmc'', Some (0::nat)), (''facemotion3d'', Some 1)] (Inr ''kinect'')
      \<lparr>activeReceiver = Some 0, started = [Some 0], logged = []\<rparr> =
     \<lparr>activeReceiver = Some 0, started = [Some 0],
      logged = [''Received request to change the MotionReceiver source for model'',
                [CHR 0x22] @ ''kinect'' @ [CHR 0x22] @ '' does not exist!'']\<rparr>"
  using unknown_receiver_rejected [of "''kinect''" "[(''vmc'', Some (0::nat)), (''facemotion3d'', Some 1)]"
      "\<lparr>activeReceiver = Some 0, started = [Some 0], logged = []\<rparr>"]
  by simp

text \<open>
  C10. When the receiver map is not empty, \<^verbatim>\<open>New\<close> selects a receiver of the map, and after
  any sequence of requests to \<^verbatim>\<open>/api/receiver/change\<close> the active receiver is a value of
  the map; each single request leaves the active receiver as it was or sets it to a
  value of the map. \<^verbatim>\<open>New\<close> and this handler hold the only assignments to the variable in
  the file.
\<close>

theorem active_receiver_in_map:
  assumes "receiverMap \<noteq> []"
  shows "activeReceiver (serve receiverMap bodies (New receiverMap st0)) \<in> snd ` set receiverMap
         \<and> (activeReceiver (receiverChange receiverMap body st) = activeReceiver st
            \<or> activeReceiver (receiverChange receiverMap body st) \<in> snd ` set receiverMap)"
  using assms serve_active [OF New_active] receiverChange_active by blast

theorem active_receiver_in_map_witness:
  "activeReceiver (serve [(''vmc'', Some (0::nat)), (''facemotion3d'', Some 1)]
       [Inr ''facemotion3d'', Inr ''kinect'', Inl ''unexpected EOF'']
       (New [(''vmc'', Some 0), (''facemotion3d'', Some 1)] router_init))
     \<in> snd ` set [(''vmc'', Some (0::nat)), (''facemotion3d'', Some 1)]
   \<and> activeReceiver (serve [(''vmc'', Some (0::nat)), (''facemotion3d'', Some 1)]
       [Inr ''facemotion3d'', Inr ''kinect'', Inl ''unexpected EOF'']
       (New [(''vmc'', Some 0), (''facemotion3d'', Some 1)] router_init)) = Some 1"
  using active_receiver_in_map [of "[(''vmc'', Some (0::nat)), (''facemotion3d'', Some 1)]"
      "[Inr ''facemotion3d'', Inr ''kinect'', Inl ''unexpected EOF'']" router_init]
  by (simp add: New_def router_init_def receiverChange_def index_def)

section \<open>The receiver's stop\<close>

text \<open>
  Once a connection has been accepted (\<^verbatim>\<open>currentConn\<close> is not \<^verbatim>\<open>nil\<close>), \<^verbatim>\<open>stopListening\<close>
  completes: it clears the flag and closes the connection; a second call completes too
  and leaves the state of the first.
\<close>

lemma stopListening_with_connection:
  assumes "currentConn st = Some conn"
  shows "stopListening st = Inr (st\<lparr>serverEnabled := False, closed := insert conn (closed st)\<rparr>)
         \<and> stopListening (st\<lparr>serverEnabled := False, closed := insert conn (closed st)\<rparr>)
             = Inr (st\<lparr>serverEnabled := False, closed := insert conn (closed st)\<rparr>)"
  using assms by (simp add: stopListening_def)

text \<open>
  C7. The claim promises that \<^verbatim>\<open>stopListening\<close> completes even when \<^verbatim>\<open>listenTCP\<close> was never
  called and no connection was ever accepted. In that state, the one the package starts
  in, \<^verbatim>\<open>currentConn\<close> is \<^verbatim>\<open>nil\<close>: the call clears the flag, and then \<^verbatim>\<open>currentConn.Close()\<close>
  (line 524) panics with a nil dereference.
\<close>

theorem stopListening_before_accept_panics:
  "stopListening fm3d_init =
     Inl (NilPointerDereference, \<lparr>serverEnabled = False, currentConn = None, closed = {}\<rparr>)"
  by (simp add: stopListening_def fm3d_init_def)

section \<open>The parser: bones, names and malformed values\<close>

lemma ParseFloat_digits: "ParseFloat ''1'' = Some 1" "ParseFloat ''3'' = Some 3" "ParseFloat ''4'' = Some 4"
  by (simp_all add: ParseFloat_eval)

lemma ToUpper_byte_n: "ToUpper_byte CHR ''n'' = ''N''"
  by code_simp

lemma ToUpper_byte_no_equals:
  assumes "c \<noteq> CHR ''=''"
  shows "CHR ''='' \<notin> set (ToUpper_byte c)"
proof -
  have "char_of (of_char c - (32::nat)) \<noteq> CHR ''=''"
    if "97 \<le> (of_char c :: nat)" "(of_char c :: nat) \<le> 122"
  proof
    assume "char_of (of_char c - (32::nat)) = CHR ''=''"
    then have "(of_char (char_of (of_char c - (32::nat))) :: nat) = of_char CHR ''=''"
      by simp
    then have "(of_char c - (32::nat)) mod 256 = 61"
      by (simp add: of_char_of)
    with that show False by simp
  qed
  then show ?thesis using assms by (auto simp: ToUpper_byte_def Let_def)
qed

lemma boneField_Split:
  assumes "p = name @ ''#'' @ vals" and "CHR ''#'' \<notin> set name" and "CHR ''#'' \<notin> set vals"
    and "filter (\<lambda>x. x \<noteq> CHR ''='') name = c # cs"
    and "snd (boneValues_loop pf (Split vals '','')) = a # b # d # rest"
  shows "boneField pf fe p =
     (fst (boneValues_loop pf (Split vals '','')) @
      [WriteBone (ToUpper_byte c @ cs)
         (boneOf (fe (a / (if ToUpper_byte c @ cs = ''Head'' then 32 else 128))
                     (b / (if ToUpper_byte c @ cs = ''Head'' then 32 else 128))
                     (- (d / (if ToUpper_byte c @ cs = ''Head'' then 32 else 128)))))], None)"
proof -
  have sp: "Split p ''#'' = [name, vals]"
    using assms(1,2,3) by (simp add: Split_at_sep Split_no_sep)
  have ct: "Contains p ''#''" using assms(1) by (simp add: Contains_single)
  show ?thesis
    using ct sp assms(4,5) by (simp add: boneField_def ReplaceAll_single Let_def)
qed

lemma parseField_bone:
  "CHR ''&'' \<notin> set p \<Longrightarrow> parseField pf fe p = boneField pf fe p"
  by (simp add: parseField_def Contains_single)

text \<open>
  C5. Two bone fields with the same values, one whose name (without \<^verbatim>\<open>=\<close>, first byte through
  \<^verbatim>\<open>ToUpper\<close>) is \<^verbatim>\<open>Head\<close> and one whose name is another; \<open>a\<close>, \<open>b\<close>, \<open>d\<close> are the first three
  values that parse. Each axis is divided by the divisor of the bone before the
  conversion \<open>fe\<close>: 32 for \<^verbatim>\<open>Head\<close>, 128 for the other bone (the third axis is negated, too).
  So the rotation of \<^verbatim>\<open>Head\<close> is the conversion of four times the Euler angles of the
  other bone.
\<close>

theorem head_divisor:
  assumes "CHR ''#'' \<notin> set name" and "CHR ''#'' \<notin> set name'" and "CHR ''#'' \<notin> set vals"
    and "CHR ''&'' \<notin> set (name @ name' @ vals)"
    and "filter (\<lambda>x. x \<noteq> CHR ''='') name = c # cs" and "ToUpper_byte c @ cs = ''Head''"
    and "filter (\<lambda>x. x \<noteq> CHR ''='') name' = c' # cs'" and "ToUpper_byte c' @ cs' \<noteq> ''Head''"
    and "snd (boneValues_loop pf (Split vals '','')) = a # b # d # rest"
  shows "parseField pf fe (name @ ''#'' @ vals) =
           (fst (boneValues_loop pf (Split vals '','')) @
            [WriteBone ''Head'' (boneOf (fe (a / 32) (b / 32) (- (d / 32))))], None)
         \<and> parseField pf fe (name' @ ''#'' @ vals) =
           (fst (boneValues_loop pf (Split vals '','')) @
            [WriteBone (ToUpper_byte c' @ cs') (boneOf (fe (a / 128) (b / 128) (- (d / 128))))], None)
         \<and> fe (a / 32) (b / 32) (- (d / 32)) = fe (4 * (a / 128)) (4 * (b / 128)) (4 * (- (d / 128)))"
proof -
  have 1: "parseField pf fe (name @ ''#'' @ vals) = boneField pf fe (name @ ''#'' @ vals)"
    using assms(4) by (intro parseField_bone) simp
  have 2: "parseField pf fe (name' @ ''#'' @ vals) = boneField pf fe (name' @ ''#'' @ vals)"
    using assms(4) by (intro parseField_bone) simp
  have 3: "boneField pf fe (name @ ''#'' @ vals) =
           (fst (boneValues_loop pf (Split vals '','')) @
            [WriteBone ''Head'' (boneOf (fe (a / 32) (b / 32) (- (d / 32))))], None)"
    using boneField_Split [OF refl assms(1,3,5,9), of fe] assms(6) by simp
  have 4: "boneField pf fe (name' @ ''#'' @ vals) =
           (fst (boneValues_loop pf (Split vals '','')) @
            [WriteBone (ToUpper_byte c' @ cs') (boneOf (fe (a / 128) (b / 128) (- (d / 128))))], None)"
    using boneField_Split [OF refl assms(2,3,7,9), of fe] assms(8) by simp
  have 5: "a / 32 = 4 * (a / 128)" "b / 32 = 4 * (b / 128)" "- (d / 32) = 4 * (- (d / 128))"
    by simp_all
  show ?thesis
    unfolding 1 2 3 4 using 5 by simp
qed

theorem head_divisor_witness:
  "parseField ParseFloat FromEuler ''=head#1,3,4'' =
     ([WriteBone ''Head'' (boneOf (FromEuler (1 / 32) (3 / 32) (- (4 / 32))))], None)
   \<and> parseField ParseFloat FromEuler ''=neck#1,3,4'' =
     ([WriteBone ''Neck'' (boneOf (FromEuler (1 / 128) (3 / 128) (- (4 / 128))))], None)
   \<and> FromEuler (1 / 32) (3 / 32) (- (4 / 32))
       = FromEuler (4 * (1 / 128)) (4 * (3 / 128)) (4 * (- (4 / 128)))"
  using head_divisor [of "''=head''" "''=neck''" "''1,3,4''" "CHR ''h''" "''ead''"
      "CHR ''n''" "''eck''" ParseFloat 1 3 4 "[]" FromEuler]
  by (simp add: ParseFloat_digits ToUpper_byte_h ToUpper_byte_n)

lemma blendShapeNames_parseField:
  assumes "key \<in> set (blendShapeNames (fst (parseField pf fe p)))"
  shows "\<exists>c cs. takeWhile (\<lambda>x. x \<noteq> CHR ''&'') p = c # cs \<and> key = ToUpper_byte c @ cs"
proof -
  have hd: "hd (Split p ''&'') = takeWhile (\<lambda>x. x \<noteq> CHR ''&'') p"
    by (rule hd_Split_single)
  consider (bone) "\<not> Contains p ''&''"
    | (skip) "Contains p ''&''" "Contains p ''FM_'' \<or> p = []"
    | (blend) "Contains p ''&''" "\<not> Contains p ''FM_''" "p \<noteq> []"
    by blast
  then show ?thesis
  proof cases
    case bone
    then have "parseField pf fe p = boneField pf fe p" by (simp add: parseField_def)
    then show ?thesis using assms by (simp add: boneField_no_blendShape)
  next
    case skip
    then have "parseField pf fe p = ([], None)" by (auto simp: parseField_def)
    then show ?thesis using assms by simp
  next
    case blend
    show ?thesis
    proof (cases "Split p ''&''")
      case Nil
      then show ?thesis using Split_not_Nil by blast
    next
      case (Cons k ks)
      then have k: "k = takeWhile (\<lambda>x. x \<noteq> CHR ''&'') p" using hd by simp
      have "parseField pf fe p =
          (case ks of [] \<Rightarrow> ([], Some IndexOutOfRange)
           | val # _ \<Rightarrow>
             (case k of [] \<Rightarrow> ([], Some SliceBoundsOutOfRange)
              | c # cs \<Rightarrow>
                (case pf val of None \<Rightarrow> ([], None)
                 | Some v \<Rightarrow> and_then [WriteBlendShape (ToUpper_byte c @ cs) (v / 100)]
                                 (boneField pf fe p))))"
        using blend Cons by (simp add: parseField_def Let_def split: list.splits option.splits)
      then show ?thesis
        using assms k
        by (auto simp: and_then_def boneField_no_blendShape
            split: list.splits option.splits)
    qed
  qed
qed

lemma boneNames_boneField:
  assumes "key \<in> set (boneNames (fst (boneField pf fe p)))"
  shows "\<exists>c cs. filter (\<lambda>x. x \<noteq> CHR ''='') (takeWhile (\<lambda>x. x \<noteq> CHR ''#'') p) = c # cs
           \<and> key = ToUpper_byte c @ cs \<and> CHR ''='' \<notin> set key"
proof -
  have hd: "hd (Split p ''#'') = takeWhile (\<lambda>x. x \<noteq> CHR ''#'') p"
    by (rule hd_Split_single)
  have noeq: "CHR ''='' \<notin> set (ToUpper_byte c @ cs)"
    if "filter (\<lambda>x. x \<noteq> CHR ''='') s = c # cs" for s c cs
  proof -
    have "set (c # cs) = {x \<in> set s. x \<noteq> CHR ''=''}" using that [symmetric] by simp
    then have "c \<noteq> CHR ''=''" "CHR ''='' \<notin> set cs" by auto
    then show ?thesis using ToUpper_byte_no_equals by simp
  qed
  show ?thesis
  proof (cases "Split p ''#''")
    case Nil
    then show ?thesis using Split_not_Nil by blast
  next
    case (Cons k ks)
    then have k: "k = takeWhile (\<lambda>x. x \<noteq> CHR ''#'') p" using hd by simp
    show ?thesis
      using assms Cons k noeq
      by (auto simp: boneField_def Let_def ReplaceAll_single boneNames_append
          boneValues_loop_bones split: list.splits if_splits)
  qed
qed

lemma boneNames_parseField:
  assumes "key \<in> set (boneNames (fst (parseField pf fe p)))"
  shows "\<exists>c cs. filter (\<lambda>x. x \<noteq> CHR ''='') (takeWhile (\<lambda>x. x \<noteq> CHR ''#'') p) = c # cs
           \<and> key = ToUpper_byte c @ cs \<and> CHR ''='' \<notin> set key"
proof -
  have "key \<in> set (boneNames (fst (boneField pf fe p)))"
    using assms
    by (auto simp: parseField_def and_then_def Let_def split: if_splits list.splits option.splits)
  then show ?thesis by (rule boneNames_boneField)
qed

lemma blendShapeNames_parsePayload:
  "key \<in> set (blendShapeNames (fst (parsePayload pf fe payload))) \<Longrightarrow>
   \<exists>p \<in> set payload. key \<in> set (blendShapeNames (fst (parseField pf fe p)))"
  by (induction payload)
     (auto simp: and_then_def blendShapeNames_append split: option.splits)

lemma boneNames_parsePayload:
  "key \<in> set (boneNames (fst (parsePayload pf fe payload))) \<Longrightarrow>
   \<exists>p \<in> set payload. key \<in> set (boneNames (fst (parseField pf fe p)))"
  by (induction payload)
     (auto simp: and_then_def boneNames_append split: option.splits)

text \<open>
  Every blend-shape name that \<^verbatim>\<open>parseFrame\<close> writes comes from a field of the frame: it is
  the text of the field before the first \<^verbatim>\<open>&\<close>, which is not empty, with its first byte
  through \<^verbatim>\<open>ToUpper\<close> and the rest as it is. Every bone name written is the text of a
  field before the first \<^verbatim>\<open>#\<close> without its \<^verbatim>\<open>=\<close> characters, which is not empty, with its
  first byte through \<^verbatim>\<open>ToUpper\<close>; no \<^verbatim>\<open>=\<close> is left in it.
\<close>

theorem written_names_normalized:
  "(\<forall>key \<in> set (blendShapeNames (fst (parseFrame pf fe frameStr))).
      \<exists>p \<in> set (Split frameStr ''|''). \<exists>c cs.
        takeWhile (\<lambda>x. x \<noteq> CHR ''&'') p = c # cs \<and> key = ToUpper_byte c @ cs)
   \<and> (\<forall>key \<in> set (boneNames (fst (parseFrame pf fe frameStr))).
      \<exists>p \<in> set (Split frameStr ''|''). \<exists>c cs.
        filter (\<lambda>x. x \<noteq> CHR ''='') (takeWhile (\<lambda>x. x \<noteq> CHR ''#'') p) = c # cs
        \<and> key = ToUpper_byte c @ cs \<and> CHR ''='' \<notin> set key)"
proof (intro conjI ballI)
  fix key
  assume "key \<in> set (blendShapeNames (fst (parseFrame pf fe frameStr)))"
  then obtain p where "p \<in> set (Split frameStr ''|'')"
      and "key \<in> set (blendShapeNames (fst (parseField pf fe p)))"
    unfolding parseFrame_def using blendShapeNames_parsePayload by blast
  then show "\<exists>p \<in> set (Split frameStr ''|''). \<exists>c cs.
        takeWhile (\<lambda>x. x \<noteq> CHR ''&'') p = c # cs \<and> key = ToUpper_byte c @ cs"
    using blendShapeNames_parseField by blast
next
  fix key
  assume "key \<in> set (boneNames (fst (parseFrame pf fe frameStr)))"
  then obtain p where "p \<in> set (Split frameStr ''|'')"
      and "key \<in> set (boneNames (fst (parseField pf fe p)))"
    unfolding parseFrame_def using boneNames_parsePayload by blast
  then show "\<exists>p \<in> set (Split frameStr ''|''). \<exists>c cs.
        filter (\<lambda>x. x \<noteq> CHR ''='') (takeWhile (\<lambda>x. x \<noteq> CHR ''#'') p) = c # cs
        \<and> key = ToUpper_byte c @ cs \<and> CHR ''='' \<notin> set key"
    using boneNames_parseField by blast
qed

lemma frame_jaw_head:
  "parseFrame ParseFloat FromEuler ''jawOpen&50|=head#1,3,4'' =
     ([WriteBlendShape ''JawOpen'' (1 / 2),
       WriteBone ''Head'' (boneOf (FromEuler (1 / 32) (3 / 32) (- (1 / 8))))], None)"
  by (simp add: parseFrame_def parseField_def boneField_def and_then_def
      ParseFloat_50 ParseFloat_digits ToUpper_byte_j ToUpper_byte_h)

theorem written_names_normalized_witness:
  "blendShapeNames (fst (parseFrame ParseFloat FromEuler ''jawOpen&50|=head#1,3,4'')) = [''JawOpen'']
   \<and> boneNames (fst (parseFrame ParseFloat FromEuler ''jawOpen&50|=head#1,3,4'')) = [''Head'']
   \<and> (\<exists>p \<in> set (Split ''jawOpen&50|=head#1,3,4'' ''|''). \<exists>c cs.
        takeWhile (\<lambda>x. x \<noteq> CHR ''&'') p = c # cs \<and> ''JawOpen'' = ToUpper_byte c @ cs)
   \<and> (\<exists>p \<in> set (Split ''jawOpen&50|=head#1,3,4'' ''|''). \<exists>c cs.
        filter (\<lambda>x. x \<noteq> CHR ''='') (takeWhile (\<lambda>x. x \<noteq> CHR ''#'') p) = c # cs
        \<and> ''Head'' = ToUpper_byte c @ cs \<and> CHR ''='' \<notin> set ''Head'')"
proof -
  note inst = written_names_normalized [of ParseFloat FromEuler "''jawOpen&50|=head#1,3,4''"]
  have b: "blendShapeNames (fst (parseFrame ParseFloat FromEuler ''jawOpen&50|=head#1,3,4'')) = [''JawOpen'']"
    and n: "boneNames (fst (parseFrame ParseFloat FromEuler ''jawOpen&50|=head#1,3,4'')) = [''Head'']"
    by (simp_all add: frame_jaw_head)
  from inst b have 1: "\<exists>p \<in> set (Split ''jawOpen&50|=head#1,3,4'' ''|''). \<exists>c cs.
        takeWhile (\<lambda>x. x \<noteq> CHR ''&'') p = c # cs \<and> ''JawOpen'' = ToUpper_byte c @ cs"
    by simp
  from inst n have 2: "\<exists>p \<in> set (Split ''jawOpen&50|=head#1,3,4'' ''|''). \<exists>c cs.
        filter (\<lambda>x. x \<noteq> CHR ''='') (takeWhile (\<lambda>x. x \<noteq> CHR ''#'') p) = c # cs
        \<and> ''Head'' = ToUpper_byte c @ cs \<and> CHR ''='' \<notin> set ''Head''"
    by simp
  from b n 1 2 show ?thesis by blast
qed

text \<open>
  C9. The claim, like the comments of lines 356 and 381, promises the first character of
  a name upper-cased. \<^verbatim>\<open>key[0:1]\<close> is the first byte, not the first character: for the
  field of the name \<open>0xC3 0xA9\<close> (a lower-case e with acute accent in UTF-8) and the value
  50, the name written is not \<open>0xC3 0x89\<close> (the upper-case letter) but the bytes of
  U+FFFD followed by the stray byte \<open>0xA9\<close>.
\<close>

theorem non_ascii_name_corrupted:
  "[CHR 0xC3, CHR 0x89] \<notin> set (blendShapeNames (fst (parseFrame ParseFloat FromEuler
      [CHR 0xC3, CHR 0xA9, CHR ''&'', CHR ''5'', CHR ''0''])))
   \<and> blendShapeNames (fst (parseFrame ParseFloat FromEuler
      [CHR 0xC3, CHR 0xA9, CHR ''&'', CHR ''5'', CHR ''0''])) = [[CHR 0xEF, CHR 0xBF, CHR 0xBD, CHR 0xA9]]"
  by (simp add: parseFrame_def parseField_def boneField_def and_then_def
      ParseFloat_50 ToUpper_byte_def)







section \<open>The listener\<close>

lemma network_boneValues_loop: "filter network (fst (boneValues_loop pf vs)) = []"
  by (induction vs) (auto split: option.splits)

lemma network_boneField: "filter network (fst (boneField pf fe p)) = []"
  by (auto simp: boneField_def Let_def network_boneValues_loop split: list.splits)

lemma network_parseField: "filter network (fst (parseField pf fe p)) = []"
  by (auto simp: parseField_def Let_def and_then_def network_boneField
      split: list.splits option.splits)

lemma network_parsePayload: "filter network (fst (parsePayload pf fe payload)) = []"
  by (induction payload) (auto simp: and_then_def network_parseField split: option.splits)

lemma network_parseFrame: "filter network (fst (parseFrame pf fe frameStr)) = []"
  by (simp add: parseFrame_def network_parsePayload)

lemma network_readLoop_Read:
  "e \<in> set (fst (readLoop pf fe liveFrames rs)) \<Longrightarrow> network e \<Longrightarrow> e = Read"
proof (induction rs arbitrary: liveFrames)
  case Nil
  then show ?case by simp
next
  case (Cons r rs)
  have pfr: "x \<in> set (fst (parseFrame pf fe l)) \<Longrightarrow> \<not> network x" for x l
    using network_parseFrame [of pf fe l] by (simp add: filter_empty_conv)
  show ?case
  proof (cases r)
    case (Inl err)
    then show ?thesis using Cons.prems by simp
  next
    case (Inr bytes)
    then show ?thesis
      using Cons.prems Cons.IH pfr
      by (auto split: list.splits option.splits)
  qed
qed

lemma network_readLoop:
  "\<exists>n. filter network (fst (readLoop pf fe liveFrames rs)) = replicate n Read"
proof -
  have "\<forall>e \<in> set (filter network (fst (readLoop pf fe liveFrames rs))). e = Read"
    using network_readLoop_Read by auto
  then have "replicate (length (filter network (fst (readLoop pf fe liveFrames rs)))) Read
      = filter network (fst (readLoop pf fe liveFrames rs))"
    by (intro replicate_length_same) 
  then show ?thesis by metis
qed

lemma listenLoop_disabled: "\<not> serverEnabled st \<Longrightarrow> listenLoop pf fe cfg rounds st = ([], Done, st)"
  by (cases rounds) simp_all

lemma telling_simps: "\<not> network (telling cfg)" "telling cfg \<noteq> Accept" "telling cfg \<noteq> Read"
  "Accept \<noteq> telling cfg" "Read \<noteq> telling cfg"
  by (simp_all add: telling_def)

lemma sendThroughTCP_fail:
  assumes "\<not> (dial h = None \<and> stop_msg h = None \<and> start_msg h = None)"
  shows "\<exists>hs err. sendThroughTCP address h = (hs, Some err)
      \<and> (hs = [Dial ''udp'' address]
      \<or> hs = [Dial ''udp'' address, Send ''StopStreaming_FACEMOTION3D'', CloseDial]
      \<or> hs = [Dial ''udp'' address, Send ''StopStreaming_FACEMOTION3D'',
            Sleep 500, Send ''FACEMOTION3D_OtherStreaming|protocol=tcp'', CloseDial])"
proof (cases "dial h")
  case (Some err)
  then show ?thesis by (simp add: sendThroughTCP_def)
next
  case None
  show ?thesis
  proof (cases "stop_msg h")
    case (Some err)
    then show ?thesis using None by (simp add: sendThroughTCP_def)
  next
    case stop: None
    then obtain err where "start_msg h = Some err" using assms None by auto
    then show ?thesis using None stop by (simp add: sendThroughTCP_def)
  qed
qed

text \<open>
  C8, on the network calls and waits of one turn of the loop of \<^verbatim>\<open>listenTCP\<close>, in their
  order (the log and the writes of the parser left aside).
  When the dial and both messages succeed, the turn is: dial the device, send the
  stop-streaming message, wait half a second, send the start-streaming message, close the
  dialled connection, and only then accept a connection and read from it, any number of
  times; a turn that ends by a failed read waits three seconds.
  When the dial or a message fails, the turn holds no accept and no read: it is the part
  of the handshake up to the failure, then the wait of three seconds; the state is as
  before, and while the flag is set and \<^verbatim>\<open>stopListening\<close> was not called the loop goes on
  with the next turn, which starts with the handshake again.
  Once the flag is cleared the loop does nothing more.
\<close>

theorem handshake_then_accept:
  "(dial (handshake r) = None \<and> stop_msg (handshake r) = None \<and> start_msg (handshake r) = None \<longrightarrow>
      (\<exists>n fin. filter network (fst (iteration pf fe cfg r st)) =
          [Dial ''udp'' (FM3DDevice_IP cfg @ '':49993''), Send ''StopStreaming_FACEMOTION3D'',
           Sleep 500, Send ''FACEMOTION3D_OtherStreaming|protocol=tcp'', CloseDial, Accept]
          @ replicate n Read @ fin
        \<and> (fin = [] \<or> fin = [Sleep 3000])))
   \<and> (\<not> (dial (handshake r) = None \<and> stop_msg (handshake r) = None
          \<and> start_msg (handshake r) = None) \<longrightarrow>
        Accept \<notin> set (fst (iteration pf fe cfg r st))
      \<and> Read \<notin> set (fst (iteration pf fe cfg r st))
      \<and> filter network (fst (iteration pf fe cfg r st)) \<in>
          {[Dial ''udp'' (FM3DDevice_IP cfg @ '':49993''), Sleep 3000],
           [Dial ''udp'' (FM3DDevice_IP cfg @ '':49993''), Send ''StopStreaming_FACEMOTION3D'',
            CloseDial, Sleep 3000],
           [Dial ''udp'' (FM3DDevice_IP cfg @ '':49993''), Send ''StopStreaming_FACEMOTION3D'',
            Sleep 500, Send ''FACEMOTION3D_OtherStreaming|protocol=tcp'', CloseDial, Sleep 3000]}
      \<and> snd (iteration pf fe cfg r st) = (Done, st)
      \<and> (serverEnabled st \<and> \<not> stopped r \<longrightarrow>
            listenLoop pf fe cfg (r # rs) st =
              (fst (iteration pf fe cfg r st) @ fst (listenLoop pf fe cfg rs st),
               snd (listenLoop pf fe cfg rs st))))
   \<and> (\<not> serverEnabled st \<longrightarrow> listenLoop pf fe cfg rounds st = ([], Done, st))"
proof (intro conjI impI)
  assume ok: "dial (handshake r) = None \<and> stop_msg (handshake r) = None
      \<and> start_msg (handshake r) = None"
  let ?hs = "[Dial ''udp'' (FM3DDevice_IP cfg @ '':49993''), Send ''StopStreaming_FACEMOTION3D'',
           Sleep 500, Send ''FACEMOTION3D_OtherStreaming|protocol=tcp'', CloseDial, Accept]"
  let ?st1 = "case accepted r of Inl err \<Rightarrow> st | Inr conn \<Rightarrow> st\<lparr>currentConn := Some conn\<rparr>"
  obtain n where n: "filter network (fst (readLoop pf fe [] (reads r))) = replicate n Read"
    using network_readLoop by blast
  have s: "sendThroughTCP (FM3DDevice_IP cfg @ '':49993'') (handshake r) =
      ([Dial ''udp'' (FM3DDevice_IP cfg @ '':49993''), Send ''StopStreaming_FACEMOTION3D'',
        Sleep 500, Send ''FACEMOTION3D_OtherStreaming|protocol=tcp'', CloseDial], None)"
    using ok by (simp add: sendThroughTCP_def)
  show "\<exists>n fin. filter network (fst (iteration pf fe cfg r st)) = ?hs @ replicate n Read @ fin
        \<and> (fin = [] \<or> fin = [Sleep 3000])"
  proof (cases "currentConn ?st1")
    case None
    then have "filter network (fst (iteration pf fe cfg r st)) = ?hs @ replicate 0 Read @ []"
      by (simp add: iteration_def s telling_simps Let_def split: sum.splits)
    then show ?thesis by blast
  next
    case (Some conn)
    show ?thesis
    proof (cases "snd (readLoop pf fe [] (reads r)) = Done")
      case True
      then have "filter network (fst (iteration pf fe cfg r st)) = ?hs @ replicate n Read @ [Sleep 3000]"
        using Some n by (simp add: iteration_def s telling_simps Let_def split: sum.splits)
      then show ?thesis by blast
    next
      case False
      then have "filter network (fst (iteration pf fe cfg r st)) = ?hs @ replicate n Read @ []"
        using Some n by (simp add: iteration_def s telling_simps Let_def split: sum.splits outcome.splits)
      then show ?thesis by blast
    qed
  qed
next
  assume bad: "\<not> (dial (handshake r) = None \<and> stop_msg (handshake r) = None
      \<and> start_msg (handshake r) = None)"
  then obtain hs err where s: "sendThroughTCP (FM3DDevice_IP cfg @ '':49993'') (handshake r) = (hs, Some err)"
    and hs: "hs = [Dial ''udp'' (FM3DDevice_IP cfg @ '':49993'')]
      \<or> hs = [Dial ''udp'' (FM3DDevice_IP cfg @ '':49993''), Send ''StopStreaming_FACEMOTION3D'', CloseDial]
      \<or> hs = [Dial ''udp'' (FM3DDevice_IP cfg @ '':49993''), Send ''StopStreaming_FACEMOTION3D'',
            Sleep 500, Send ''FACEMOTION3D_OtherStreaming|protocol=tcp'', CloseDial]"
    using sendThroughTCP_fail by blast
  have it: "iteration pf fe cfg r st =
      (telling cfg # hs @ [Print ''Facemotion3D source error, waiting 3 seconds'', Sleep 3000], Done, st)"
    by (simp add: iteration_def s)
  show "Accept \<notin> set (fst (iteration pf fe cfg r st))"
    using hs by (auto simp: it telling_simps)
  show "Read \<notin> set (fst (iteration pf fe cfg r st))"
    using hs by (auto simp: it telling_simps)
  show "filter network (fst (iteration pf fe cfg r st)) \<in>
          {[Dial ''udp'' (FM3DDevice_IP cfg @ '':49993''), Sleep 3000],
           [Dial ''udp'' (FM3DDevice_IP cfg @ '':49993''), Send ''StopStreaming_FACEMOTION3D'',
            CloseDial, Sleep 3000],
           [Dial ''udp'' (FM3DDevice_IP cfg @ '':49993''), Send ''StopStreaming_FACEMOTION3D'',
            Sleep 500, Send ''FACEMOTION3D_OtherStreaming|protocol=tcp'', CloseDial, Sleep 3000]}"
    using hs by (auto simp: it telling_simps)
  show "snd (iteration pf fe cfg r st) = (Done, st)"
    by (simp add: it)
  show "listenLoop pf fe cfg (r # rs) st =
              (fst (iteration pf fe cfg r st) @ fst (listenLoop pf fe cfg rs st),
               snd (listenLoop pf fe cfg rs st))"
    if "serverEnabled st \<and> \<not> stopped r"
    using that by (simp add: it split: prod.splits)
next
  assume "\<not> serverEnabled st"
  then show "listenLoop pf fe cfg rounds st = ([], Done, st)"
    by (rule listenLoop_disabled)
qed

lemma find_one_frame:
  "FindStringSubmatch ''___FACEMOTION3Dx&20|___FACEMOTION3D'' =
     [''___FACEMOTION3Dx&20|___FACEMOTION3D'', ''___FACEMOTION3Dx&20|'', ''x&20|'']"
  by code_simp

lemma read_one_frame:
  "readLoop ParseFloat FromEuler [] [Inr ''___FACEMOTION3Dx&20|___FACEMOTION3D'', Inl (IOError ''EOF'')]
     = ([Read, WriteBlendShape ''X'' (1 / 5), Read], Done)"
  by (simp add: connBuf_def ReplaceAll_single find_one_frame parseFrame_def parseField_def
      boneField_def and_then_def ParseFloat_20 ToUpper_byte_x del: FindStringSubmatch.simps)

theorem handshake_then_accept_witness:
  "filter network (fst (listenLoop ParseFloat FromEuler
      \<lparr>FM3DListen = ''0.0.0.0:49983'', FM3DDevice_IP = ''10.0.0.2''\<rparr>
      [\<lparr>handshake = \<lparr>dial = None, stop_msg = Some (IOError ''connection refused''), start_msg = None\<rparr>,
        accepted = Inr 1, reads = [], stopped = False\<rparr>,
       \<lparr>handshake = \<lparr>dial = None, stop_msg = None, start_msg = None\<rparr>,
        accepted = Inr 1,
        reads = [Inr ''___FACEMOTION3Dx&20|___FACEMOTION3D'', Inl (IOError ''EOF'')],
        stopped = True\<rparr>]
      fm3d_init)) =
     [Dial ''udp'' ''10.0.0.2:49993'', Send ''StopStreaming_FACEMOTION3D'', CloseDial, Sleep 3000,
      Dial ''udp'' ''10.0.0.2:49993'', Send ''StopStreaming_FACEMOTION3D'', Sleep 500,
      Send ''FACEMOTION3D_OtherStreaming|protocol=tcp'', CloseDial, Accept, Read, Read, Sleep 3000]
   \<and> snd (listenLoop ParseFloat FromEuler
      \<lparr>FM3DListen = ''0.0.0.0:49983'', FM3DDevice_IP = ''10.0.0.2''\<rparr>
      [\<lparr>handshake = \<lparr>dial = None, stop_msg = Some (IOError ''connection refused''), start_msg = None\<rparr>,
        accepted = Inr 1, reads = [], stopped = False\<rparr>,
       \<lparr>handshake = \<lparr>dial = None, stop_msg = None, start_msg = None\<rparr>,
        accepted = Inr 1,
        reads = [Inr ''___FACEMOTION3Dx&20|___FACEMOTION3D'', Inl (IOError ''EOF'')],
        stopped = True\<rparr>]
      fm3d_init) = (Done, \<lparr>serverEnabled = False, currentConn = Some 1, closed = {1}\<rparr>)"
  using handshake_then_accept [of
      "\<lparr>handshake = \<lparr>dial = None, stop_msg = Some (IOError ''connection refused''), start_msg = None\<rparr>,
        accepted = Inr 1, reads = [], stopped = False\<rparr>"
      ParseFloat FromEuler "\<lparr>FM3DListen = ''0.0.0.0:49983'', FM3DDevice_IP = ''10.0.0.2''\<rparr>"
      fm3d_init
      "[\<lparr>handshake = \<lparr>dial = None, stop_msg = None, start_msg = None\<rparr>,
        accepted = Inr 1,
        reads = [Inr ''___FACEMOTION3Dx&20|___FACEMOTION3D'', Inl (IOError ''EOF'')],
        stopped = True\<rparr>]" "[]"]
    handshake_then_accept [of
      "\<lparr>handshake = \<lparr>dial = None, stop_msg = None, start_msg = None\<rparr>,
        accepted = Inr 1,
        reads = [Inr ''___FACEMOTION3Dx&20|___FACEMOTION3D'', Inl (IOError ''EOF'')],
        stopped = True\<rparr>"
      ParseFloat FromEuler "\<lparr>FM3DListen = ''0.0.0.0:49983'', FM3DDevice_IP = ''10.0.0.2''\<rparr>"
      fm3d_init "[]" "[]"]
  by (simp add: fm3d_init_def iteration_def sendThroughTCP_def telling_def read_one_frame
      stopListening_def del: readLoop.simps)

section \<open>Frames in the buffer\<close>

lemma length_sentinel: "length sentinel = 15"
  by (simp add: sentinel_def)

lemma sentinel_no_newline: "CHR 0x0A \<notin> set sentinel"
  by (simp add: sentinel_def)

lemma sentinel_border:
  assumes "0 < q" and "q < 15"
  shows "\<not> prefix sentinel (drop q sentinel @ r)"
proof -
  from assms have "q = 1 \<or> q = 2 \<or> q = 3 \<or> q = 4 \<or> q = 5 \<or> q = 6 \<or> q = 7 \<or> q = 8
      \<or> q = 9 \<or> q = 10 \<or> q = 11 \<or> q = 12 \<or> q = 13 \<or> q = 14"
    by arith
  then show ?thesis by (elim disjE) (simp_all add: sentinel_def)
qed

lemma lazyPayload_Some:
  "lazyPayload s = Some (p, r) \<Longrightarrow> s = p @ sentinel @ r \<and> CHR 0x0A \<notin> set p"
proof (induction s arbitrary: p)
  case Nil
  then show ?case by simp
next
  case (Cons c s)
  show ?case
  proof (cases "prefix sentinel (c # s)")
    case True
    then have "c # s = sentinel @ drop (length sentinel) (c # s)"
      by (metis append_eq_conv_conj prefixE)
    then show ?thesis using Cons.prems True by auto
  next
    case False
    then show ?thesis
      using Cons.prems Cons.IH by (auto split: if_splits option.splits)
  qed
qed

lemma lazyPayload_finds:
  "CHR 0x0A \<notin> set b \<Longrightarrow> lazyPayload (b @ sentinel @ c) \<noteq> None"
proof (induction b)
  case Nil
  then show ?case by (cases "sentinel @ c") (auto simp: sentinel_def)
next
  case (Cons x b)
  then show ?case by (auto split: option.splits)
qed

lemma matchSentinel_Some:
  "matchSentinel s = Some (g1, g2, r) \<Longrightarrow>
     g1 = sentinel @ g2 \<and> s = g1 @ sentinel @ r \<and> CHR 0x0A \<notin> set g2"
proof -
  assume a: "matchSentinel s = Some (g1, g2, r)"
  then have p: "prefix sentinel s" by (auto simp: matchSentinel_def split: if_splits)
  then have s: "s = sentinel @ drop (length sentinel) s"
    by (metis append_eq_conv_conj prefixE)
  from a p have "lazyPayload (drop (length sentinel) s) = Some (g2, r)" and g: "g1 = sentinel @ g2"
    by (auto simp: matchSentinel_def split: option.splits)
  from lazyPayload_Some [OF this(1)] s g show ?thesis by (metis append.assoc)
qed

lemma matchHere_Some:
  "matchHere s = Some (g1, g2, r) \<Longrightarrow>
     \<exists>pre. g1 = pre @ sentinel @ g2 \<and> s = g1 @ sentinel @ r"
proof (induction s arbitrary: g1)
  case Nil
  then show ?case by simp
next
  case (Cons c s)
  show ?case
  proof (cases "if c = CHR 0x0A then None else matchHere s")
    case None
    then have "matchSentinel (c # s) = Some (g1, g2, r)" using Cons.prems by simp
    from matchSentinel_Some [OF this] show ?thesis by (metis append_Nil)
  next
    case (Some t)
    then obtain g1' where t: "matchHere s = Some (g1', g2, r)" and g: "g1 = c # g1'"
      using Cons.prems by (auto split: if_splits prod.splits)
    from Cons.IH [OF t] obtain pre where "g1' = pre @ sentinel @ g2" "s = g1' @ sentinel @ r"
      by blast
    then have "g1 = (c # pre) @ sentinel @ g2 \<and> c # s = g1 @ sentinel @ r" using g by simp
    then show ?thesis by blast
  qed
qed

lemma matchHere_finds:
  "CHR 0x0A \<notin> set t \<Longrightarrow> t = a @ sentinel @ b @ sentinel @ c \<Longrightarrow> matchHere t \<noteq> None"
proof (induction a arbitrary: t)
  case Nil
  then obtain x s where t: "t = x # s" by (cases t) (auto simp: sentinel_def)
  have "CHR 0x0A \<notin> set b" using Nil by auto
  then have "lazyPayload (b @ sentinel @ c) \<noteq> None" by (rule lazyPayload_finds)
  then have "matchSentinel t \<noteq> None" using Nil by (auto simp: matchSentinel_def)
  then show ?case using t by (auto split: option.splits)
next
  case (Cons x a)
  then have "matchHere (a @ sentinel @ b @ sentinel @ c) \<noteq> None" by auto
  then show ?case using Cons.prems by (auto split: option.splits)
qed

lemma matchHere_tail:
  "c \<noteq> CHR 0x0A \<Longrightarrow> matchHere (c # s) = None \<Longrightarrow> matchHere s = None"
  by (auto split: option.splits)

lemma FindStringSubmatch_one_line:
  "CHR 0x0A \<notin> set s \<Longrightarrow> matchHere s = None \<Longrightarrow> FindStringSubmatch s = []"
proof (induction s)
  case Nil
  then show ?case by simp
next
  case (Cons c s)
  then have "matchHere s = None" using matchHere_tail [of c s] by auto
  then show ?case using Cons by simp
qed

lemma no_two_sentinels:
  assumes "CHR 0x0A \<notin> set t" and "\<nexists>a b c. t = a @ sentinel @ b @ sentinel @ c"
  shows "FindStringSubmatch t = []"
proof -
  have "matchHere t = None"
  proof (rule ccontr)
    assume "matchHere t \<noteq> None"
    then obtain g1 g2 r where "matchHere t = Some (g1, g2, r)" by auto
    from matchHere_Some [OF this] obtain pre where "t = (pre @ sentinel @ g2) @ sentinel @ r"
      by blast
    then have "t = pre @ sentinel @ g2 @ sentinel @ r" by simp
    then show False using assms(2) by blast
  qed
  then show ?thesis using assms(1) by (rule FindStringSubmatch_one_line [rotated])
qed

text \<open>After the longest first part, no second frame is left behind the closing sentinel.\<close>

lemma matchHere_greedy:
  "CHR 0x0A \<notin> set t \<Longrightarrow> matchHere t = Some (g1, g2, r) \<Longrightarrow>
   \<nexists>a b c. sentinel @ r = a @ sentinel @ b @ sentinel @ c"
proof (induction t arbitrary: g1)
  case Nil
  then show ?case by simp
next
  case (Cons x s)
  have x: "x \<noteq> CHR 0x0A" and s: "CHR 0x0A \<notin> set s" using Cons.prems by auto
  show ?case
  proof (cases "matchHere s")
    case (Some u)
    then obtain g1' where "matchHere s = Some (g1', g2, r)"
      using Cons.prems x by (auto split: prod.splits)
    from Cons.IH [OF s this] show ?thesis .
  next
    case None
    then have "matchSentinel (x # s) = Some (g1, g2, r)" using Cons.prems(2) x by simp
    from matchSentinel_Some [OF this] have "x # s = sentinel @ g2 @ sentinel @ r" by simp
    then have tl: "s = tl sentinel @ g2 @ sentinel @ r" by (simp add: sentinel_def)
    show ?thesis
    proof
      assume "\<exists>a b c. sentinel @ r = a @ sentinel @ b @ sentinel @ c"
      then obtain a b c where "sentinel @ r = a @ sentinel @ b @ sentinel @ c" by blast
      then have "s = (tl sentinel @ g2 @ a) @ sentinel @ b @ sentinel @ c" using tl by simp
      from matchHere_finds [OF s this] None show False by simp
    qed
  qed
qed


lemma ReplaceAll_prefix: "old \<noteq> [] \<Longrightarrow> ReplaceAll (old @ t) old = ReplaceAll t old"
  by (cases old) auto

lemma ReplaceAll_absent:
  "(\<And>k. \<not> prefix old (drop k u)) \<Longrightarrow> ReplaceAll u old = u"
proof (induction u)
  case Nil
  then show ?case by simp
next
  case (Cons c u)
  have "\<not> prefix old (c # u)" using Cons.prems [of 0] by simp
  moreover have "ReplaceAll u old = u"
  proof (rule Cons.IH)
    fix k show "\<not> prefix old (drop k u)" using Cons.prems [of "Suc k"] by simp
  qed
  ultimately show ?case by simp
qed

lemma prefix_drop_decompose:
  "prefix p (drop k u) \<Longrightarrow> \<exists>z. u = take k u @ p @ z"
  by (metis append_take_drop_id prefixE)

lemma no_sentinel_behind:
  assumes "\<nexists>a b c. sentinel @ r = a @ sentinel @ b @ sentinel @ c"
  shows "\<not> prefix sentinel (drop k r)"
proof
  assume "prefix sentinel (drop k r)"
  then obtain z where "r = take k r @ sentinel @ z" using prefix_drop_decompose by blast
  then have "sentinel @ r = [] @ sentinel @ take k r @ sentinel @ z" by simp
  then show False using assms by blast
qed

lemma occurrence_holds_sentinel:
  assumes "prefix (x @ sentinel @ y) (drop k u)"
  shows "prefix sentinel (drop (k + length x) u)"
proof -
  from assms obtain z where "drop k u = (x @ sentinel @ y) @ z" by (auto elim: prefixE)
  then have "drop (length x) (drop k u) = sentinel @ y @ z" by simp
  then have "drop (k + length x) u = sentinel @ y @ z" by (simp add: add.commute)
  then show ?thesis by simp
qed

lemma occurrence_only_in_front:
  assumes "\<nexists>a b c. sentinel @ r = a @ sentinel @ b @ sentinel @ c"
    and "prefix (x @ sentinel @ y) (drop k (sentinel @ r))"
  shows "k = 0"
proof (rule ccontr)
  assume k: "k \<noteq> 0"
  let ?q = "k + length x"
  have p: "prefix sentinel (drop ?q (sentinel @ r))"
    using assms(2) by (rule occurrence_holds_sentinel)
  show False
  proof (cases "?q < 15")
    case True
    then have "drop ?q (sentinel @ r) = drop ?q sentinel @ r" by (simp add: length_sentinel)
    then show False using p sentinel_border [of ?q r] k True by simp
  next
    case False
    then have "drop ?q (sentinel @ r) = drop (?q - 15) r" by (simp add: length_sentinel)
    then show False using p no_sentinel_behind [OF assms(1)] by simp
  qed
qed

lemma ReplaceAll_behind:
  assumes "\<nexists>a b c. sentinel @ r = a @ sentinel @ b @ sentinel @ c"
  shows "ReplaceAll (sentinel @ r) (x @ sentinel @ y) =
     (if prefix (x @ sentinel @ y) (sentinel @ r)
      then drop (length (x @ sentinel @ y)) (sentinel @ r) else sentinel @ r)"
proof (cases "prefix (x @ sentinel @ y) (sentinel @ r)")
  case True
  let ?old = "x @ sentinel @ y"
  let ?t = "drop (length ?old) (sentinel @ r)"
  have ne: "?old \<noteq> []" by (simp add: sentinel_def)
  have t: "sentinel @ r = ?old @ ?t" using True by (metis append_eq_conv_conj prefixE)
  have "ReplaceAll (sentinel @ r) ?old = ReplaceAll (?old @ ?t) ?old" using t by simp
  also have "\<dots> = ReplaceAll ?t ?old" using ne by (rule ReplaceAll_prefix)
  also have "\<dots> = ?t"
  proof (rule ReplaceAll_absent)
    fix k
    show "\<not> prefix ?old (drop k ?t)"
    proof
      assume "prefix ?old (drop k ?t)"
      then have "prefix ?old (drop (k + length ?old) (sentinel @ r))" by (simp add: add.commute)
      from occurrence_only_in_front [OF assms this] show False by (simp add: sentinel_def)
    qed
  qed
  finally show ?thesis using True by simp
next
  case False
  have "ReplaceAll (sentinel @ r) (x @ sentinel @ y) = sentinel @ r"
  proof (rule ReplaceAll_absent)
    fix k
    show "\<not> prefix (x @ sentinel @ y) (drop k (sentinel @ r))"
      using occurrence_only_in_front [OF assms, of x y k] False by (cases "k = 0") auto
  qed
  then show ?thesis using False by simp
qed

lemma FindStringSubmatch_one_line_Some:
  assumes "CHR 0x0A \<notin> set s" and "FindStringSubmatch s = [m, g1, g2]"
  shows "\<exists>r. matchHere s = Some (g1, g2, r)"
proof (cases "matchHere s")
  case None
  then show ?thesis using assms FindStringSubmatch_one_line by fastforce
next
  case (Some u)
  then show ?thesis using assms(2) by (cases s) (auto split: prod.splits)
qed

text \<open>
  A buffer without a newline in which the search finds a frame. The first group
  \<^verbatim>\<open>allBeforeDelimiter\<close> is a prefix of the buffer: the text before the frame, the opening
  sentinel and the frame; behind it come the closing sentinel and the rest. The pruning of
  line 511 leaves the closing sentinel and the rest, unless the rest starts with the frame
  again and no text stood before the opening sentinel: then it also deletes this second
  copy together with the closing sentinel. In both cases a search of what is left finds no
  frame.
\<close>

theorem frame_consumed:
  assumes "CHR 0x0A \<notin> set liveFrames"
    and "FindStringSubmatch liveFrames = [m, allBeforeDelimiter, latestFrame]"
  shows "\<exists>pre rest.
           allBeforeDelimiter = pre @ sentinel @ latestFrame
         \<and> liveFrames = allBeforeDelimiter @ sentinel @ rest
         \<and> ReplaceAll liveFrames allBeforeDelimiter =
             (if prefix allBeforeDelimiter (sentinel @ rest)
              then drop (length allBeforeDelimiter) (sentinel @ rest) else sentinel @ rest)
         \<and> FindStringSubmatch (ReplaceAll liveFrames allBeforeDelimiter) = []"
proof -
  from FindStringSubmatch_one_line_Some [OF assms]
  obtain rest where mh: "matchHere liveFrames = Some (allBeforeDelimiter, latestFrame, rest)"
    by blast
  from matchHere_Some [OF mh] obtain pre
    where g1: "allBeforeDelimiter = pre @ sentinel @ latestFrame"
      and lf: "liveFrames = allBeforeDelimiter @ sentinel @ rest"
    by blast
  have no2: "\<nexists>a b c. sentinel @ rest = a @ sentinel @ b @ sentinel @ c"
    using assms(1) mh by (rule matchHere_greedy)
  have ne: "allBeforeDelimiter \<noteq> []" using g1 by (simp add: sentinel_def)
  have "ReplaceAll liveFrames allBeforeDelimiter
      = ReplaceAll (allBeforeDelimiter @ sentinel @ rest) allBeforeDelimiter"
    using lf by simp
  also have "\<dots> = ReplaceAll (sentinel @ rest) allBeforeDelimiter"
    using ne by (rule ReplaceAll_prefix)
  finally have ra: "ReplaceAll liveFrames allBeforeDelimiter
      = ReplaceAll (sentinel @ rest) (pre @ sentinel @ latestFrame)"
    using g1 by simp
  have exact: "ReplaceAll liveFrames allBeforeDelimiter =
             (if prefix allBeforeDelimiter (sentinel @ rest)
              then drop (length allBeforeDelimiter) (sentinel @ rest) else sentinel @ rest)"
    using ReplaceAll_behind [OF no2, of pre latestFrame] ra g1 by simp
  then obtain k where k: "ReplaceAll liveFrames allBeforeDelimiter = drop k (sentinel @ rest)"
    by (metis drop0)
  have nl: "CHR 0x0A \<notin> set (drop k (sentinel @ rest))"
    using assms(1) lf by (metis Un_iff in_set_dropD set_append)
  have "\<nexists>a b c. drop k (sentinel @ rest) = a @ sentinel @ b @ sentinel @ c"
  proof
    assume "\<exists>a b c. drop k (sentinel @ rest) = a @ sentinel @ b @ sentinel @ c"
    then obtain a b c where "drop k (sentinel @ rest) = a @ sentinel @ b @ sentinel @ c" by blast
    then have "sentinel @ rest = (take k (sentinel @ rest) @ a) @ sentinel @ b @ sentinel @ c"
      by (metis append.assoc append_take_drop_id)
    then show False using no2 by blast
  qed
  with nl have "FindStringSubmatch (drop k (sentinel @ rest)) = []"
    by (rule no_two_sentinels)
  then have fin: "FindStringSubmatch (ReplaceAll liveFrames allBeforeDelimiter) = []"
    using k by simp
  from g1 lf exact fin show ?thesis by blast
qed

lemma find_two_frames:
  "FindStringSubmatch ''___FACEMOTION3Da___FACEMOTION3Db___FACEMOTION3Dc'' =
     [''___FACEMOTION3Da___FACEMOTION3Db___FACEMOTION3D'', ''___FACEMOTION3Da___FACEMOTION3Db'', ''b'']"
  by code_simp

lemma prune_two_frames:
  "ReplaceAll ''___FACEMOTION3Da___FACEMOTION3Db___FACEMOTION3Dc'' ''___FACEMOTION3Da___FACEMOTION3Db''
     = ''___FACEMOTION3Dc''"
  by code_simp

theorem frame_consumed_witness:
  "ReplaceAll ''___FACEMOTION3Da___FACEMOTION3Db___FACEMOTION3Dc'' ''___FACEMOTION3Da___FACEMOTION3Db''
     = ''___FACEMOTION3Dc''
   \<and> FindStringSubmatch (ReplaceAll ''___FACEMOTION3Da___FACEMOTION3Db___FACEMOTION3Dc''
       ''___FACEMOTION3Da___FACEMOTION3Db'') = []"
proof -
  have "CHR 0x0A \<notin> set ''___FACEMOTION3Da___FACEMOTION3Db___FACEMOTION3Dc''"
    by simp
  from frame_consumed [OF this find_two_frames]
  have "FindStringSubmatch (ReplaceAll ''___FACEMOTION3Da___FACEMOTION3Db___FACEMOTION3Dc''
       ''___FACEMOTION3Da___FACEMOTION3Db'') = []"
    by blast
  with prune_two_frames show ?thesis by (rule conjI)
qed

text \<open>
  The second copy deleted: with two frames \<open>ab\<close> and the start \<open>abc\<close> of a third in the
  buffer, the pruning leaves only \<open>c\<close>; the sentinel that opens the third frame is gone.
\<close>

lemma over_prune:
  "FindStringSubmatch ''___FACEMOTION3Dab___FACEMOTION3Dabc'' =
     [''___FACEMOTION3Dab___FACEMOTION3D'', ''___FACEMOTION3Dab'', ''ab'']
   \<and> ReplaceAll ''___FACEMOTION3Dab___FACEMOTION3Dabc'' ''___FACEMOTION3Dab'' = ''c''"
  by code_simp

text \<open>
  C3. The claim promises that after a match everything up to and including the frame is
  discarded from the buffer, as the name \<^verbatim>\<open>allBeforeDelimiter\<close> and the comment of line 510
  intend. When a newline stands before the frame this fails: \<^verbatim>\<open>.\<close> does not match a
  newline, the match of line 499 starts behind it, and the pruning of line 511 leaves the
  text before the frame's line in the buffer. For the buffer of \<open>a\<close>, a newline and one
  frame \<open>b\<close>, the first group is the opening sentinel and \<open>b\<close>, and after the pruning the
  buffer still begins with \<open>a\<close> and the newline.
\<close>

theorem newline_prefix_kept:
  "FindStringSubmatch ([CHR ''a'', CHR 0x0A] @ ''___FACEMOTION3Db___FACEMOTION3D'') =
     [''___FACEMOTION3Db___FACEMOTION3D'', ''___FACEMOTION3Db'', ''b'']
   \<and> ReplaceAll ([CHR ''a'', CHR 0x0A] @ ''___FACEMOTION3Db___FACEMOTION3D'') ''___FACEMOTION3Db''
     = [CHR ''a'', CHR 0x0A] @ ''___FACEMOTION3D''"
  by code_simp

end
